theory Spec2Isabelle
  imports Complex_Main "HOL-Library.Word"
begin

section \<open>Data shared by the match engine and its collaborators\<close>

text \<open>
  \<^verbatim>\<open>PlayerEnum\<close> and \<^verbatim>\<open>AttackResult\<close> are enums of the collaborators' headers; the
  match engine uses the values \<^verbatim>\<open>PlayerEnum::A\<close>, \<^verbatim>\<open>PlayerEnum::B\<close> and
  \<^verbatim>\<open>AttackResult::Miss\<close>, \<^verbatim>\<open>Hit\<close>, \<^verbatim>\<open>Sink\<close>.
\<close>

datatype PlayerEnum = A | B

datatype AttackResult = Miss | Hit | Sink

text \<open>
  An attack target is a \<^verbatim>\<open>std::pair<int, int>\<close>. The two coordinates are the only
  integers the engine does arithmetic on (it decrements them), so they carry the width of
  the source's \<^verbatim>\<open>int\<close>: a coordinate is a 32-bit word, read as a signed number by
  \<open>sint\<close>. Decrementing the least \<^verbatim>\<open>int\<close> is undefined in C++; on a word it wraps around
  to the greatest \<^verbatim>\<open>int\<close>, which is what the compiled code does. The other integers of the
  sources are only compared or passed on, and are mathematical integers here.
\<close>

type_synonym coordinate = "32 word"

type_synonym target = "coordinate \<times> coordinate"

text \<open>GameManager.h: the coordinate a player returns to forfeit.\<close>

definition FOREFEIT_COORDINATES :: coordinate where
  "FOREFEIT_COORDINATES = -1"

text \<open>
  Modelled from the spec: the constant \<^verbatim>\<open>FORFEIT\<close> that \<^verbatim>\<open>startGame\<close> compares a target
  with is declared outside the given sources; it is the reserved forfeit sentinel of the
  player interface, taken here as the pair of \<^verbatim>\<open>FOREFEIT_COORDINATES\<close>.
\<close>

definition FORFEIT :: target where
  "FORFEIT = (FOREFEIT_COORDINATES, FOREFEIT_COORDINATES)"

text \<open>
  The game piece an attack returns. The engine reads only its field \<^verbatim>\<open>_lifeLeft\<close>.
\<close>

record GamePiece =
  lifeLeft :: int

text \<open>
  The board is an external collaborator (\<^verbatim>\<open>BattleBoard.h\<close> is not part of the sources).
  Its operations are parameters: \<open>'b\<close> is the state of a board object, \<open>'m\<close> the matrix
  it hands to the players. \<^verbatim>\<open>executeAttack\<close> mutates the board, so it returns the new
  board state next to the game piece (\<open>None\<close> for the null pointer).
\<close>

record ('b, 'm) BattleBoard =
  getPlayerAShipCount :: "'b \<Rightarrow> int"
  getPlayerBShipCount :: "'b \<Rightarrow> int"
  getBoardMatrix :: "'b \<Rightarrow> 'm"
  executeAttack :: "'b \<Rightarrow> target \<Rightarrow> GamePiece option \<times> 'b"

text \<open>
  A player strategy (\<^verbatim>\<open>IBattleshipGameAlgo\<close>), also external: \<open>'p\<close> is the state of a
  player object, and every method returns the object's new state.
\<close>

record ('p, 'm) IBattleshipGameAlgo =
  setBoard :: "'p \<Rightarrow> 'm \<Rightarrow> int \<Rightarrow> int \<Rightarrow> 'p"
  attack :: "'p \<Rightarrow> target \<times> 'p"
  notifyOnAttackResult :: "'p \<Rightarrow> int \<Rightarrow> coordinate \<Rightarrow> coordinate \<Rightarrow> AttackResult \<Rightarrow> 'p"

text \<open>
  Every call the engine makes on a collaborator, in the order it is made. The visualizer
  (\<^verbatim>\<open>IGameVisual\<close>) returns nothing to the engine, so it is present only through these
  entries. \<open>AttackCall p t\<close> is a call of \<^verbatim>\<open>attack()\<close> on player \<open>p\<close> that returned \<open>t\<close>;
  the first argument of \<open>NotifyOnAttackResult\<close> is the player that receives the call.
  \<open>UpdateCurrentGamePoints\<close> and \<open>UpdateScoreboard\<close> stand for the two private methods
  of \<^verbatim>\<open>GameManager\<close> that maintain the score.
\<close>

datatype ('b, 'm) Call =
    SetBoard PlayerEnum 'm int int
  | AttackCall PlayerEnum target
  | ExecuteAttack target
  | NotifyOnAttackResult PlayerEnum int coordinate coordinate AttackResult
  | VisualizeAttackResults coordinate coordinate AttackResult
  | VisualizeEndGame 'b bool bool
  | UpdateCurrentGamePoints
  | UpdateScoreboard

section \<open>GameManager\<close>

text \<open>GameManager.h: the private fields of the manager, the score of past games.\<close>

record GameManager =
  playerAWins :: int
  playerBWins :: int

text \<open>The default member initialisers of GameManager.h.\<close>

definition newGameManager :: GameManager where
  "newGameManager = \<lparr>playerAWins = 0, playerBWins = 0\<rparr>"

text \<open>
  The collaborators of one call of \<^verbatim>\<open>startGame\<close>: the board's operations, the two
  strategies and the constant \<^verbatim>\<open>BOARD_SIZE\<close>, which is declared outside the given sources.
\<close>

record ('b, 'p, 'm) Collaborators =
  boardOps :: "('b, 'm) BattleBoard"
  algoA :: "('p, 'm) IBattleshipGameAlgo"
  algoB :: "('p, 'm) IBattleshipGameAlgo"
  BOARD_SIZE :: int

text \<open>
  The state \<^verbatim>\<open>startGame\<close> works on: the manager object itself, the objects behind its
  three reference parameters, its three local variables, and the calls made so far.
  \<^verbatim>\<open>currentPlayer\<close> is a pointer to one of the two player objects; the two are taken to
  be distinct objects, named \<open>A\<close> and \<open>B\<close>.
\<close>

record ('b, 'p, 'm) Match =
  manager :: GameManager
  board :: 'b
  playerA :: 'p
  playerB :: 'p
  currentPlayer :: PlayerEnum
  isPlayerAForfeit :: bool
  isPlayerBForfeit :: bool
  calls :: "('b, 'm) Call list"

text \<open>
  GameManager.cpp, lines 14-18. The branch for player B names \<^verbatim>\<open>getPlayerBShipCount\<close>
  without the call parentheses; it is read as the call.
\<close>

definition isPlayerShipsLeft :: "('b, 'm) BattleBoard \<Rightarrow> 'b \<Rightarrow> PlayerEnum \<Rightarrow> bool" where
  "isPlayerShipsLeft ops b player =
     (let shipsCount = (if player = A then getPlayerAShipCount ops b else getPlayerBShipCount ops b)
      in shipsCount > 0)"

text \<open>GameManager.cpp, lines 20-32.\<close>

definition isGameOver :: "('b, 'm) BattleBoard \<Rightarrow> 'b \<Rightarrow> bool \<Rightarrow> bool \<Rightarrow> bool" where
  "isGameOver ops b aForfeit bForfeit =
     (if (aForfeit \<and> bForfeit) \<or> \<not> isPlayerShipsLeft ops b A \<or> \<not> isPlayerShipsLeft ops b B
      then True
      else False)"

text \<open>
  GameManager.cpp, lines 34-44. The three player arguments are addresses; the function
  compares and returns them and never looks behind them.
\<close>

definition switchPlayerTurns :: "'r \<Rightarrow> 'r \<Rightarrow> 'r \<Rightarrow> bool \<Rightarrow> bool \<Rightarrow> 'r" where
  "switchPlayerTurns pA pB currPlayer aForfeit bForfeit =
     (if currPlayer = pA \<and> \<not> bForfeit then pB
      else if \<not> aForfeit then pA
      else pB)"

text \<open>Line 60: \<^verbatim>\<open>currentPlayer->attack()\<close>, a virtual call on the active player.\<close>

definition callAttack ::
  "('b, 'p, 'm) Collaborators \<Rightarrow> ('b, 'p, 'm) Match \<Rightarrow> target \<times> ('b, 'p, 'm) Match" where
  "callAttack env m =
     (if currentPlayer m = A
      then (let (t, p) = attack (algoA env) (playerA m)
            in (t, m\<lparr>playerA := p, calls := calls m @ [AttackCall A t]\<rparr>))
      else (let (t, p) = attack (algoB env) (playerB m)
            in (t, m\<lparr>playerB := p, calls := calls m @ [AttackCall B t]\<rparr>)))"

text \<open>Lines 101-103: the three notifications that end an attack.\<close>

definition notifyAll ::
  "('b, 'p, 'm) Collaborators \<Rightarrow> int \<Rightarrow> target \<Rightarrow> AttackResult \<Rightarrow>
   ('b, 'p, 'm) Match \<Rightarrow> ('b, 'p, 'm) Match" where
  "notifyAll env attackingPlayerNumber t attackResult m =
     m\<lparr>playerA := notifyOnAttackResult (algoA env) (playerA m)
                     attackingPlayerNumber (fst t) (snd t) attackResult,
       playerB := notifyOnAttackResult (algoB env) (playerB m)
                     attackingPlayerNumber (fst t) (snd t) attackResult,
       calls := calls m @
         [NotifyOnAttackResult A attackingPlayerNumber (fst t) (snd t) attackResult,
          NotifyOnAttackResult B attackingPlayerNumber (fst t) (snd t) attackResult,
          VisualizeAttackResults (fst t) (snd t) attackResult]\<rparr>"

text \<open>Lines 62-72: the branch taken when the target is the forfeit sentinel.\<close>

definition forfeitTurn :: "('b, 'p, 'm) Match \<Rightarrow> ('b, 'p, 'm) Match" where
  "forfeitTurn m =
     (let m1 = (if currentPlayer m = A then m\<lparr>isPlayerAForfeit := True\<rparr>
                else m\<lparr>isPlayerBForfeit := True\<rparr>)
      in m1\<lparr>currentPlayer :=
              switchPlayerTurns A B (currentPlayer m1) (isPlayerAForfeit m1) (isPlayerBForfeit m1)\<rparr>)"

text \<open>Lines 74-103: the target is normalised, executed on the board and reported.\<close>

definition attackTurn ::
  "('b, 'p, 'm) Collaborators \<Rightarrow> target \<Rightarrow> ('b, 'p, 'm) Match \<Rightarrow> ('b, 'p, 'm) Match" where
  "attackTurn env t0 m =
     (let t = (fst t0 - 1, snd t0 - 1);
          (attackedGamePiece, b) = executeAttack (boardOps env) (board m) t;
          m1 = m\<lparr>board := b, calls := calls m @ [ExecuteAttack t]\<rparr>;
          attackingPlayerNumber = (if currentPlayer m1 = B then 1 else 0)
      in case attackedGamePiece of
           None \<Rightarrow>
             notifyAll env attackingPlayerNumber t Miss
               (m1\<lparr>currentPlayer :=
                     switchPlayerTurns A B (currentPlayer m1)
                       (isPlayerAForfeit m1) (isPlayerBForfeit m1)\<rparr>)
         | Some piece \<Rightarrow>
             if lifeLeft piece = 0
             then notifyAll env attackingPlayerNumber t Sink m1
             else notifyAll env attackingPlayerNumber t Hit m1)"

text \<open>Lines 58-104: one iteration of the loop.\<close>

definition loopBody ::
  "('b, 'p, 'm) Collaborators \<Rightarrow> ('b, 'p, 'm) Match \<Rightarrow> ('b, 'p, 'm) Match" where
  "loopBody env m =
     (let (t, m1) = callAttack env m
      in if t = FORFEIT then forfeitTurn m1 else attackTurn env t m1)"

text \<open>The loop condition of line 57, on the state.\<close>

definition gameOver :: "('b, 'p, 'm) Collaborators \<Rightarrow> ('b, 'p, 'm) Match \<Rightarrow> bool" where
  "gameOver env m = isGameOver (boardOps env) (board m) (isPlayerAForfeit m) (isPlayerBForfeit m)"

text \<open>
  Lines 57-104: the loop. Nothing bounds the number of iterations, so the loop is a
  partial function: \<open>None\<close> is a loop that never ends.
\<close>

partial_function (option) gameLoop ::
  "('b, 'p, 'm) Collaborators \<Rightarrow> ('b, 'p, 'm) Match \<Rightarrow> ('b, 'p, 'm) Match option" where
  "gameLoop env m = (if gameOver env m then Some m else gameLoop env (loopBody env m))"

declare gameLoop.simps [code]

text \<open>Lines 50-55: the state when the loop is entered for the first time.\<close>

definition initialMatch ::
  "('b, 'p, 'm) Collaborators \<Rightarrow> GameManager \<Rightarrow> 'b \<Rightarrow> 'p \<Rightarrow> 'p \<Rightarrow> ('b, 'p, 'm) Match" where
  "initialMatch env gm b pA pB =
     (let n = BOARD_SIZE env; mat = getBoardMatrix (boardOps env) b
      in \<lparr>manager = gm,
          board = b,
          playerA = setBoard (algoA env) pA mat n n,
          playerB = setBoard (algoB env) pB mat n n,
          currentPlayer = A,
          isPlayerAForfeit = False,
          isPlayerBForfeit = False,
          calls = [SetBoard A mat n n, SetBoard B mat n n]\<rparr>)"

text \<open>Line 106: the call that follows the loop.\<close>

definition endGame :: "('b, 'p, 'm) Match \<Rightarrow> ('b, 'p, 'm) Match" where
  "endGame m =
     m\<lparr>calls := calls m @ [VisualizeEndGame (board m) (isPlayerAForfeit m) (isPlayerBForfeit m)]\<rparr>"

text \<open>GameManager.cpp, lines 46-107.\<close>

definition startGame ::
  "('b, 'p, 'm) Collaborators \<Rightarrow> GameManager \<Rightarrow> 'b \<Rightarrow> 'p \<Rightarrow> 'p \<Rightarrow> ('b, 'p, 'm) Match option" where
  "startGame env gm b pA pB = map_option endGame (gameLoop env (initialMatch env gm b pA pB))"

text \<open>
  The states in which the loop condition is evaluated during a call that entered the loop
  in state \<open>m0\<close>. They exist whether or not the loop ever ends.
\<close>

inductive loopHead ::
  "('b, 'p, 'm) Collaborators \<Rightarrow> ('b, 'p, 'm) Match \<Rightarrow> ('b, 'p, 'm) Match \<Rightarrow> bool"
  for env :: "('b, 'p, 'm) Collaborators" and m0 :: "('b, 'p, 'm) Match" where
  enter: "loopHead env m0 m0"
| iterate: "loopHead env m0 m \<Longrightarrow> \<not> gameOver env m \<Longrightarrow> loopHead env m0 (loopBody env m)"

section \<open>Observations on a state of the match\<close>

text \<open>The forfeit flag of a player, and the opponent of a player.\<close>

definition forfeited :: "('b, 'p, 'm) Match \<Rightarrow> PlayerEnum \<Rightarrow> bool" where
  "forfeited m p = (if p = A then isPlayerAForfeit m else isPlayerBForfeit m)"

fun opponent :: "PlayerEnum \<Rightarrow> PlayerEnum" where
  "opponent A = B"
| "opponent B = A"

text \<open>
  The object of a player in a state of the match, and the methods of its class.
\<close>

definition playerObject :: "('b, 'p, 'm) Match \<Rightarrow> PlayerEnum \<Rightarrow> 'p" where
  "playerObject m p = (if p = A then playerA m else playerB m)"

definition algoOf :: "('b, 'p, 'm) Collaborators \<Rightarrow> PlayerEnum \<Rightarrow> ('p, 'm) IBattleshipGameAlgo" where
  "algoOf env p = (if p = A then algoA env else algoB env)"

text \<open>
  What a collaborator returns to the engine in the iteration that starts in state \<open>m\<close>:
  the target of the active player, and the game piece of the board for that target.
\<close>

definition targetOf :: "('b, 'p, 'm) Collaborators \<Rightarrow> ('b, 'p, 'm) Match \<Rightarrow> target" where
  "targetOf env m = fst (callAttack env m)"

definition pieceOf :: "('b, 'p, 'm) Collaborators \<Rightarrow> ('b, 'p, 'm) Match \<Rightarrow> GamePiece option" where
  "pieceOf env m =
     fst (executeAttack (boardOps env) (board m) (fst (targetOf env m) - 1, snd (targetOf env m) - 1))"

text \<open>The calls made during the iteration that starts in state \<open>m\<close>.\<close>

definition iterationCalls ::
  "('b, 'p, 'm) Collaborators \<Rightarrow> ('b, 'p, 'm) Match \<Rightarrow> ('b, 'm) Call list" where
  "iterationCalls env m = drop (length (calls m)) (calls (loopBody env m))"

text \<open>The outcome of an attack, read off the returned game piece as lines 86-99 do.\<close>

definition resultOf :: "GamePiece option \<Rightarrow> AttackResult" where
  "resultOf g = (case g of None \<Rightarrow> Miss | Some piece \<Rightarrow> if lifeLeft piece = 0 then Sink else Hit)"

text \<open>Line 83: the number that names the attacking player in a notification.\<close>

definition playerNumber :: "PlayerEnum \<Rightarrow> int" where
  "playerNumber p = (if p = B then 1 else 0)"

section \<open>Scoreboard.h: player statistics and round results\<close>

text \<open>
  The \<^verbatim>\<open>float\<close> rating is read as a real number: the comparator of the round results
  only orders ratings, and a NaN (which no order relates to anything) is outside the model.
\<close>

record PlayerStatistics =
  playerName :: string
  pointsFor :: int
  pointsAgainst :: int
  wins :: int
  loses :: int
  rating :: real

text \<open>Scoreboard.h, lines 38-43.\<close>

definition PlayerStatisticsRatingSort :: "PlayerStatistics \<Rightarrow> PlayerStatistics \<Rightarrow> bool" where
  "PlayerStatisticsRatingSort a b = (rating a < rating b)"

text \<open>
  \<^verbatim>\<open>std::set<Key, Compare>\<close> of the C++ standard library, as the sequence of its elements
  in iteration order. \<^verbatim>\<open>insert\<close> walks to the place of the new element; two elements
  neither of which is less than the other under \<^verbatim>\<open>Compare\<close> are equivalent, and an element
  equivalent to one already in the set is not inserted.
\<close>

fun set_insert :: "('a \<Rightarrow> 'a \<Rightarrow> bool) \<Rightarrow> 'a \<Rightarrow> 'a list \<Rightarrow> 'a list" where
  "set_insert lt x [] = [x]"
| "set_insert lt x (y # ys) =
     (if lt x y then x # y # ys
      else if lt y x then y # set_insert lt x ys
      else y # ys)"

text \<open>Scoreboard.h, lines 45-51.\<close>

record RoundResults =
  roundNum :: int
  playerStatistics :: "PlayerStatistics list"

text \<open>The constructor \<^verbatim>\<open>RoundResults(int aRoundNum)\<close> leaves the set empty.\<close>

definition newRoundResults :: "int \<Rightarrow> RoundResults" where
  "newRoundResults aRoundNum = \<lparr>roundNum = aRoundNum, playerStatistics = []\<rparr>"

text \<open>An insertion into the \<^verbatim>\<open>playerStatistics\<close> set of a round.\<close>

definition insertStatistics :: "PlayerStatistics \<Rightarrow> RoundResults \<Rightarrow> RoundResults" where
  "insertStatistics s r =
     r\<lparr>playerStatistics := set_insert PlayerStatisticsRatingSort s (playerStatistics r)\<rparr>"

text \<open>
  The round results that exist: a fresh one, and one after any number of insertions.
\<close>

inductive roundResults :: "RoundResults \<Rightarrow> bool" where
  fresh: "roundResults (newRoundResults n)"
| inserted: "roundResults r \<Longrightarrow> roundResults (insertStatistics s r)"

section \<open>Example collaborators\<close>

text \<open>
  A small board for concrete runs: the fleet is a list of ships, each with its owner and
  the cells of it that have not been hit yet. An attack on a cell of a ship removes the cell
  and returns the ship with the number of cells it has left; an attack on any other cell,
  also on a cell attacked before, returns no piece.
\<close>

type_synonym fleet = "(PlayerEnum \<times> target list) list"

definition fleetShipCount :: "PlayerEnum \<Rightarrow> fleet \<Rightarrow> int" where
  "fleetShipCount p ships = int (length (filter (\<lambda>s. fst s = p \<and> snd s \<noteq> []) ships))"

fun fleetAttack :: "fleet \<Rightarrow> target \<Rightarrow> GamePiece option \<times> fleet" where
  "fleetAttack [] t = (None, [])"
| "fleetAttack ((p, cells) # ships) t =
     (if t \<in> set cells
      then (Some \<lparr>lifeLeft = int (length (removeAll t cells))\<rparr>, (p, removeAll t cells) # ships)
      else (fst (fleetAttack ships t), (p, cells) # snd (fleetAttack ships t)))"

definition fleetBoard :: "(fleet, unit) BattleBoard" where
  "fleetBoard =
     \<lparr>getPlayerAShipCount = fleetShipCount A,
      getPlayerBShipCount = fleetShipCount B,
      getBoardMatrix = (\<lambda>ships. ()),
      executeAttack = fleetAttack\<rparr>"

text \<open>
  Two strategies whose state is a list of targets. The scripted player plays its list once
  and forfeits when the list is used up; the repeating player plays its list over and over.
  Both ignore the notifications.
\<close>

fun scriptedAttack :: "target list \<Rightarrow> target \<times> target list" where
  "scriptedAttack [] = (FORFEIT, [])"
| "scriptedAttack (t # ts) = (t, ts)"

fun repeatingAttack :: "target list \<Rightarrow> target \<times> target list" where
  "repeatingAttack [] = (FORFEIT, [])"
| "repeatingAttack (t # ts) = (t, ts @ [t])"

definition scriptedAlgo :: "(target list, unit) IBattleshipGameAlgo" where
  "scriptedAlgo =
     \<lparr>setBoard = (\<lambda>p mat rows cols. p),
      attack = scriptedAttack,
      notifyOnAttackResult = (\<lambda>p n row col res. p)\<rparr>"

definition repeatingAlgo :: "(target list, unit) IBattleshipGameAlgo" where
  "repeatingAlgo =
     \<lparr>setBoard = (\<lambda>p mat rows cols. p),
      attack = repeatingAttack,
      notifyOnAttackResult = (\<lambda>p n row col res. p)\<rparr>"

text \<open>
  A strategy that keeps a record of what happens to it: its state is the list of targets it
  still has to play and the list of the calls it has received, \<open>Asked\<close> for a call of
  \<^verbatim>\<open>attack()\<close> and \<open>Told\<close> for a call of \<^verbatim>\<open>notifyOnAttackResult\<close> with its arguments. It
  forfeits when its targets are used up.
\<close>

datatype PlayerEvent = Asked | Told int coordinate coordinate AttackResult

fun recordingAttack ::
  "target list \<times> PlayerEvent list \<Rightarrow> target \<times> (target list \<times> PlayerEvent list)" where
  "recordingAttack ([], evs) = (FORFEIT, ([], evs @ [Asked]))"
| "recordingAttack (t # ts, evs) = (t, (ts, evs @ [Asked]))"

definition recordingAlgo :: "(target list \<times> PlayerEvent list, unit) IBattleshipGameAlgo" where
  "recordingAlgo =
     \<lparr>setBoard = (\<lambda>p mat rows cols. p),
      attack = recordingAttack,
      notifyOnAttackResult = (\<lambda>p n row col res. (fst p, snd p @ [Told n row col res]))\<rparr>"

definition recordingGame :: "(fleet, target list \<times> PlayerEvent list, unit) Collaborators" where
  "recordingGame =
     \<lparr>boardOps = fleetBoard, algoA = recordingAlgo, algoB = recordingAlgo, BOARD_SIZE = 10\<rparr>"

definition scriptedGame :: "(fleet, target list, unit) Collaborators" where
  "scriptedGame =
     \<lparr>boardOps = fleetBoard, algoA = scriptedAlgo, algoB = scriptedAlgo, BOARD_SIZE = 10\<rparr>"

definition repeatingGame :: "(fleet, target list, unit) Collaborators" where
  "repeatingGame =
     \<lparr>boardOps = fleetBoard, algoA = repeatingAlgo, algoB = repeatingAlgo, BOARD_SIZE = 10\<rparr>"

text \<open>A fleet of two ships: player A's on two cells, player B's on one cell.\<close>

definition twoShips :: fleet where
  "twoShips = [(A, [(4, 4), (4, 5)]), (B, [(2, 2)])]"

text \<open>
  Three players for concrete round results. Alice and Bob have the same counters, hence the
  same rating whatever the rating is computed from; Carol has a higher rating.
\<close>

definition alice :: PlayerStatistics where
  "alice = \<lparr>playerName = ''alice'', pointsFor = 10, pointsAgainst = 10, wins = 1, loses = 1,
            rating = 1 / 2\<rparr>"

definition bob :: PlayerStatistics where
  "bob = \<lparr>playerName = ''bob'', pointsFor = 10, pointsAgainst = 10, wins = 1, loses = 1,
          rating = 1 / 2\<rparr>"

definition carol :: PlayerStatistics where
  "carol = \<lparr>playerName = ''carol'', pointsFor = 30, pointsAgainst = 10, wins = 3, loses = 1,
            rating = 3 / 4\<rparr>"

section \<open>One iteration of the loop, field by field\<close>

lemma callAttack_fields:
  "fst (callAttack env m) = targetOf env m"
  "calls (snd (callAttack env m)) = calls m @ [AttackCall (currentPlayer m) (targetOf env m)]"
  "board (snd (callAttack env m)) = board m"
  "manager (snd (callAttack env m)) = manager m"
  "currentPlayer (snd (callAttack env m)) = currentPlayer m"
  "isPlayerAForfeit (snd (callAttack env m)) = isPlayerAForfeit m"
  "isPlayerBForfeit (snd (callAttack env m)) = isPlayerBForfeit m"
  by (cases "currentPlayer m"; simp add: callAttack_def targetOf_def split: prod.split)+

lemma loopBody_cases:
  "loopBody env m =
     (if targetOf env m = FORFEIT then forfeitTurn (snd (callAttack env m))
      else attackTurn env (targetOf env m) (snd (callAttack env m)))"
  by (simp add: loopBody_def targetOf_def split: prod.split)

lemma attackTurn_calls:
  "calls (attackTurn env t m) =
     calls m @
       [ExecuteAttack (fst t - 1, snd t - 1),
        NotifyOnAttackResult A (playerNumber (currentPlayer m)) (fst t - 1) (snd t - 1)
          (resultOf (fst (executeAttack (boardOps env) (board m) (fst t - 1, snd t - 1)))),
        NotifyOnAttackResult B (playerNumber (currentPlayer m)) (fst t - 1) (snd t - 1)
          (resultOf (fst (executeAttack (boardOps env) (board m) (fst t - 1, snd t - 1)))),
        VisualizeAttackResults (fst t - 1) (snd t - 1)
          (resultOf (fst (executeAttack (boardOps env) (board m) (fst t - 1, snd t - 1))))]"
  by (simp add: attackTurn_def notifyAll_def resultOf_def playerNumber_def Let_def
      split: prod.split option.split)

lemma attackTurn_fields:
  "board (attackTurn env t m) = snd (executeAttack (boardOps env) (board m) (fst t - 1, snd t - 1))"
  "manager (attackTurn env t m) = manager m"
  "isPlayerAForfeit (attackTurn env t m) = isPlayerAForfeit m"
  "isPlayerBForfeit (attackTurn env t m) = isPlayerBForfeit m"
  "currentPlayer (attackTurn env t m) =
     (if fst (executeAttack (boardOps env) (board m) (fst t - 1, snd t - 1)) = None
      then switchPlayerTurns A B (currentPlayer m) (isPlayerAForfeit m) (isPlayerBForfeit m)
      else currentPlayer m)"
  by (simp_all add: attackTurn_def notifyAll_def Let_def split: prod.split option.split)

lemma forfeitTurn_fields:
  "calls (forfeitTurn m) = calls m"
  "board (forfeitTurn m) = board m"
  "manager (forfeitTurn m) = manager m"
  "isPlayerAForfeit (forfeitTurn m) = (isPlayerAForfeit m \<or> currentPlayer m = A)"
  "isPlayerBForfeit (forfeitTurn m) = (isPlayerBForfeit m \<or> currentPlayer m = B)"
  "currentPlayer (forfeitTurn m) =
     switchPlayerTurns A B (currentPlayer m)
       (isPlayerAForfeit m \<or> currentPlayer m = A) (isPlayerBForfeit m \<or> currentPlayer m = B)"
  by (cases "currentPlayer m"; simp add: forfeitTurn_def Let_def)+

lemma loopBody_calls_forfeit:
  "targetOf env m = FORFEIT \<Longrightarrow>
   calls (loopBody env m) = calls m @ [AttackCall (currentPlayer m) FORFEIT]"
  by (simp add: loopBody_cases forfeitTurn_fields callAttack_fields)

lemma loopBody_calls_attack:
  "targetOf env m \<noteq> FORFEIT \<Longrightarrow>
   calls (loopBody env m) =
     calls m @
       [AttackCall (currentPlayer m) (targetOf env m),
        ExecuteAttack (fst (targetOf env m) - 1, snd (targetOf env m) - 1),
        NotifyOnAttackResult A (playerNumber (currentPlayer m))
          (fst (targetOf env m) - 1) (snd (targetOf env m) - 1) (resultOf (pieceOf env m)),
        NotifyOnAttackResult B (playerNumber (currentPlayer m))
          (fst (targetOf env m) - 1) (snd (targetOf env m) - 1) (resultOf (pieceOf env m)),
        VisualizeAttackResults
          (fst (targetOf env m) - 1) (snd (targetOf env m) - 1) (resultOf (pieceOf env m))]"
  by (simp add: loopBody_cases attackTurn_calls callAttack_fields pieceOf_def)

lemma loopBody_manager: "manager (loopBody env m) = manager m"
  by (simp add: loopBody_cases attackTurn_fields forfeitTurn_fields callAttack_fields)

lemma loopBody_board:
  "board (loopBody env m) =
     (if targetOf env m = FORFEIT then board m
      else snd (executeAttack (boardOps env) (board m)
                  (fst (targetOf env m) - 1, snd (targetOf env m) - 1)))"
  by (simp add: loopBody_cases attackTurn_fields forfeitTurn_fields callAttack_fields)

lemma loopBody_forfeited:
  "forfeited (loopBody env m) p =
     (forfeited m p \<or> (targetOf env m = FORFEIT \<and> currentPlayer m = p))"
  by (cases p)
     (auto simp: forfeited_def loopBody_cases attackTurn_fields forfeitTurn_fields
        callAttack_fields)

lemma loopBody_currentPlayer:
  "currentPlayer (loopBody env m) =
     (if targetOf env m = FORFEIT
      then switchPlayerTurns A B (currentPlayer m)
             (isPlayerAForfeit m \<or> currentPlayer m = A) (isPlayerBForfeit m \<or> currentPlayer m = B)
      else if pieceOf env m = None
      then switchPlayerTurns A B (currentPlayer m) (isPlayerAForfeit m) (isPlayerBForfeit m)
      else currentPlayer m)"
  by (simp add: loopBody_cases attackTurn_fields forfeitTurn_fields callAttack_fields pieceOf_def)

text \<open>The two player objects: who is asked to attack, and who is notified.\<close>

lemma callAttack_objects:
  "targetOf env m = fst (attack (algoOf env (currentPlayer m)) (playerObject m (currentPlayer m)))"
  "playerObject (snd (callAttack env m)) q =
     (if q = currentPlayer m then snd (attack (algoOf env q) (playerObject m q))
      else playerObject m q)"
  by (cases "currentPlayer m"; cases q;
      simp add: callAttack_def targetOf_def playerObject_def algoOf_def split: prod.split)+

lemma forfeitTurn_objects: "playerObject (forfeitTurn m) q = playerObject m q"
  by (cases "currentPlayer m"; simp add: forfeitTurn_def playerObject_def Let_def)

lemma attackTurn_objects:
  "playerObject (attackTurn env t m) q =
     notifyOnAttackResult (algoOf env q) (playerObject m q) (playerNumber (currentPlayer m))
       (fst t - 1) (snd t - 1)
       (resultOf (fst (executeAttack (boardOps env) (board m) (fst t - 1, snd t - 1))))"
  by (cases q)
     (simp_all add: attackTurn_def notifyAll_def resultOf_def playerNumber_def playerObject_def
        algoOf_def Let_def split: prod.split option.split)

lemma loopBody_objects:
  "playerObject (loopBody env m) q =
     (if targetOf env m = FORFEIT then playerObject (snd (callAttack env m)) q
      else notifyOnAttackResult (algoOf env q) (playerObject (snd (callAttack env m)) q)
             (playerNumber (currentPlayer m))
             (fst (targetOf env m) - 1) (snd (targetOf env m) - 1) (resultOf (pieceOf env m)))"
  by (simp add: loopBody_cases forfeitTurn_objects attackTurn_objects callAttack_fields pieceOf_def)

lemma loopBody_playerA:
  "targetOf env m \<noteq> FORFEIT \<Longrightarrow>
   playerA (loopBody env m) =
     notifyOnAttackResult (algoA env)
       (if currentPlayer m = A then snd (attack (algoA env) (playerA m)) else playerA m)
       (playerNumber (currentPlayer m))
       (fst (targetOf env m) - 1) (snd (targetOf env m) - 1) (resultOf (pieceOf env m))"
proof -
  assume nf: "targetOf env m \<noteq> FORFEIT"
  have "playerObject (snd (callAttack env m)) A =
      (if A = currentPlayer m then snd (attack (algoOf env A) (playerObject m A))
       else playerObject m A)"
    by (rule callAttack_objects(2))
  then have asked: "playerA (snd (callAttack env m)) =
      (if currentPlayer m = A then snd (attack (algoA env) (playerA m)) else playerA m)"
    by (auto simp: playerObject_def algoOf_def)
  from loopBody_objects [of env m A] nf
  have "playerA (loopBody env m) =
      notifyOnAttackResult (algoA env) (playerA (snd (callAttack env m)))
        (playerNumber (currentPlayer m))
        (fst (targetOf env m) - 1) (snd (targetOf env m) - 1) (resultOf (pieceOf env m))"
    by (simp add: playerObject_def algoOf_def)
  then show ?thesis by (simp only: asked)
qed

lemma loopBody_playerB:
  "targetOf env m \<noteq> FORFEIT \<Longrightarrow>
   playerB (loopBody env m) =
     notifyOnAttackResult (algoB env)
       (if currentPlayer m = B then snd (attack (algoB env) (playerB m)) else playerB m)
       (playerNumber (currentPlayer m))
       (fst (targetOf env m) - 1) (snd (targetOf env m) - 1) (resultOf (pieceOf env m))"
proof -
  assume nf: "targetOf env m \<noteq> FORFEIT"
  have "playerObject (snd (callAttack env m)) B =
      (if B = currentPlayer m then snd (attack (algoOf env B) (playerObject m B))
       else playerObject m B)"
    by (rule callAttack_objects(2))
  then have asked: "playerB (snd (callAttack env m)) =
      (if currentPlayer m = B then snd (attack (algoB env) (playerB m)) else playerB m)"
    by (auto simp: playerObject_def algoOf_def)
  from loopBody_objects [of env m B] nf
  have "playerB (loopBody env m) =
      notifyOnAttackResult (algoB env) (playerB (snd (callAttack env m)))
        (playerNumber (currentPlayer m))
        (fst (targetOf env m) - 1) (snd (targetOf env m) - 1) (resultOf (pieceOf env m))"
    by (simp add: playerObject_def algoOf_def)
  then show ?thesis by (simp only: asked)
qed

text \<open>
  The decrement of a coordinate is the decrement of the signed number it stands for, except
  at the least \<^verbatim>\<open>int\<close>.
\<close>

lemma sint_decrement:
  fixes x :: coordinate
  assumes "sint x \<noteq> - 2147483648"
  shows "sint (x - 1) = sint x - 1"
proof -
  have lo: "- 2147483648 \<le> sint x" using sint_ge [of x] by simp
  have hi: "sint x < 2147483648" using sint_lt [of x] by simp
  have "sint (x - 1) = signed_take_bit 31 (sint x - 1)"
    by (simp add: sint_word_ariths)
  also have "\<dots> = sint x - 1"
    using lo hi assms by (intro signed_take_bit_int_eq_self) simp_all
  finally show ?thesis .
qed

section \<open>The loop and the states at its head\<close>

lemma loopHead_gameLoop: "loopHead env m0 m \<Longrightarrow> gameLoop env m0 = gameLoop env m"
proof (induction rule: loopHead.induct)
  case enter
  show ?case by simp
next
  case (iterate m)
  then show ?case by (simp add: gameLoop.simps [of env m])
qed

lemma loopHead_trans:
  "loopHead env m1 m2 \<Longrightarrow> loopHead env m0 m1 \<Longrightarrow> loopHead env m0 m2"
  by (induction rule: loopHead.induct) (auto intro: loopHead.intros)

lemma gameLoop_Some_loopHead:
  assumes "gameLoop env m0 = Some m"
  shows "loopHead env m0 m \<and> gameOver env m"
  using assms
proof (induct rule: gameLoop.raw_induct [rotated, consumes 1, case_names step])
  case (step gameLoop' env m0 m)
  show ?case
  proof (cases "gameOver env m0")
    case True
    with step(2) show ?thesis by (auto intro: loopHead.enter)
  next
    case False
    with step(2) have "gameLoop' env (loopBody env m0) = Some m" by simp
    then have "loopHead env (loopBody env m0) m \<and> gameOver env m" by (rule step(1))
    moreover have "loopHead env m0 (loopBody env m0)"
      using False by (auto intro: loopHead.intros)
    ultimately show ?thesis by (auto intro: loopHead_trans)
  qed
qed

lemma gameLoop_returns_iff:
  "(\<exists>m. gameLoop env m0 = Some m) = (\<exists>m. loopHead env m0 m \<and> gameOver env m)"
proof
  assume "\<exists>m. gameLoop env m0 = Some m"
  then show "\<exists>m. loopHead env m0 m \<and> gameOver env m"
    by (auto dest: gameLoop_Some_loopHead)
next
  assume "\<exists>m. loopHead env m0 m \<and> gameOver env m"
  then obtain m where m: "loopHead env m0 m" "gameOver env m" by blast
  then have "gameLoop env m0 = Some m"
    by (simp add: loopHead_gameLoop [OF m(1)] gameLoop.simps [of env m])
  then show "\<exists>m. gameLoop env m0 = Some m" by blast
qed

section \<open>The two helper predicates of the engine\<close>

text \<open>
  C1. \<^verbatim>\<open>isGameOver\<close> returns true exactly when both forfeit flags are set or one of the
  two players has no ship left, where \<^verbatim>\<open>isPlayerShipsLeft\<close> reports whether the player's
  ship count on the board is strictly positive. For ship counts that are counts (not
  negative), having no ship left is a ship count of zero.
\<close>

theorem isGameOver_iff:
  "isGameOver ops b aForfeit bForfeit =
     ((aForfeit \<and> bForfeit) \<or> \<not> isPlayerShipsLeft ops b A \<or> \<not> isPlayerShipsLeft ops b B)
   \<and> isPlayerShipsLeft ops b A = (0 < getPlayerAShipCount ops b)
   \<and> isPlayerShipsLeft ops b B = (0 < getPlayerBShipCount ops b)
   \<and> (0 \<le> getPlayerAShipCount ops b \<and> 0 \<le> getPlayerBShipCount ops b \<longrightarrow>
        isGameOver ops b aForfeit bForfeit =
          ((aForfeit \<and> bForfeit) \<or> getPlayerAShipCount ops b = 0 \<or> getPlayerBShipCount ops b = 0))"
  by (auto simp: isGameOver_def isPlayerShipsLeft_def)

theorem isGameOver_iff_witness:
  "0 \<le> getPlayerAShipCount fleetBoard twoShips \<and> 0 \<le> getPlayerBShipCount fleetBoard twoShips
   \<and> \<not> isGameOver fleetBoard twoShips True False
   \<and> isGameOver fleetBoard twoShips True True
   \<and> 0 \<le> getPlayerAShipCount fleetBoard [(A, [(4, 4)]), (B, [])]
   \<and> 0 \<le> getPlayerBShipCount fleetBoard [(A, [(4, 4)]), (B, [])]
   \<and> isGameOver fleetBoard [(A, [(4, 4)]), (B, [])] False False"
  using isGameOver_iff [of fleetBoard twoShips True False]
    isGameOver_iff [of fleetBoard twoShips True True]
    isGameOver_iff [of fleetBoard "[(A, [(4, 4)]), (B, [])]" False False]
  by (simp add: fleetBoard_def fleetShipCount_def twoShips_def)

text \<open>
  C3. \<^verbatim>\<open>switchPlayerTurns\<close> is a function of the current player and the two forfeit flags
  alone: B when the current player is A and B has not forfeited, otherwise A when A has not
  forfeited, otherwise B. For the current player A, with A not forfeited and B forfeited,
  the result is A.
\<close>

theorem switchPlayerTurns_priority:
  "switchPlayerTurns pA pB currPlayer aForfeit bForfeit =
     (if currPlayer = pA \<and> \<not> bForfeit then pB else if \<not> aForfeit then pA else pB)
   \<and> switchPlayerTurns A B A False True = A
   \<and> switchPlayerTurns A B A False False = B
   \<and> switchPlayerTurns A B A True False = B
   \<and> switchPlayerTurns A B A True True = B
   \<and> switchPlayerTurns A B B False False = A
   \<and> switchPlayerTurns A B B False True = A
   \<and> switchPlayerTurns A B B True False = B
   \<and> switchPlayerTurns A B B True True = B"
  by (simp add: switchPlayerTurns_def)

section \<open>The calls and the turn of one iteration\<close>

lemma iterationCalls_forfeit:
  "targetOf env m = FORFEIT \<Longrightarrow> iterationCalls env m = [AttackCall (currentPlayer m) FORFEIT]"
  by (simp add: iterationCalls_def loopBody_calls_forfeit)

lemma iterationCalls_attack:
  "targetOf env m \<noteq> FORFEIT \<Longrightarrow>
   iterationCalls env m =
     [AttackCall (currentPlayer m) (targetOf env m),
      ExecuteAttack (fst (targetOf env m) - 1, snd (targetOf env m) - 1),
      NotifyOnAttackResult A (playerNumber (currentPlayer m))
        (fst (targetOf env m) - 1) (snd (targetOf env m) - 1) (resultOf (pieceOf env m)),
      NotifyOnAttackResult B (playerNumber (currentPlayer m))
        (fst (targetOf env m) - 1) (snd (targetOf env m) - 1) (resultOf (pieceOf env m)),
      VisualizeAttackResults
        (fst (targetOf env m) - 1) (snd (targetOf env m) - 1) (resultOf (pieceOf env m))]"
  by (simp add: iterationCalls_def loopBody_calls_attack)

lemma calls_loopBody: "calls (loopBody env m) = calls m @ iterationCalls env m"
  by (cases "targetOf env m = FORFEIT")
     (simp_all add: iterationCalls_def loopBody_calls_attack loopBody_calls_forfeit)

lemmas engine_defs =
  loopBody_def callAttack_def forfeitTurn_def attackTurn_def notifyAll_def
  switchPlayerTurns_def gameOver_def isGameOver_def isPlayerShipsLeft_def
  initialMatch_def endGame_def FORFEIT_def FOREFEIT_COORDINATES_def
  targetOf_def pieceOf_def resultOf_def playerNumber_def iterationCalls_def forfeited_def
  playerObject_def algoOf_def
  Let_def

lemmas example_defs =
  scriptedGame_def repeatingGame_def scriptedAlgo_def repeatingAlgo_def
  recordingGame_def recordingAlgo_def
  fleetBoard_def fleetShipCount_def twoShips_def newGameManager_def

text \<open>
  C5. When the active player returns a target that is not the forfeit sentinel, the board's
  attack execution is called once in the iteration, with both coordinates decremented, and
  the board continues in the state that call leaves. The decrement is that of the 32-bit
  \<^verbatim>\<open>int\<close>: it takes one from the signed value of every coordinate but the least
  \<^verbatim>\<open>int\<close>, so a 1-based coordinate becomes the 0-based one, and a target (1,1) reaches the
  board as (0,0).
\<close>

theorem attack_target_normalised:
  assumes "targetOf env m = (row, col)" and "(row, col) \<noteq> FORFEIT"
  shows "iterationCalls env m ! 1 = ExecuteAttack (row - 1, col - 1)
    \<and> [c \<leftarrow> iterationCalls env m. \<exists>t. c = ExecuteAttack t] = [ExecuteAttack (row - 1, col - 1)]
    \<and> pieceOf env m = fst (executeAttack (boardOps env) (board m) (row - 1, col - 1))
    \<and> board (loopBody env m) = snd (executeAttack (boardOps env) (board m) (row - 1, col - 1))
    \<and> (sint row \<noteq> - 2147483648 \<longrightarrow> sint (row - 1) = sint row - 1)
    \<and> (sint col \<noteq> - 2147483648 \<longrightarrow> sint (col - 1) = sint col - 1)
    \<and> (1 \<le> sint row \<and> 1 \<le> sint col \<longrightarrow> 0 \<le> sint (row - 1) \<and> 0 \<le> sint (col - 1))
    \<and> ((row, col) = (1, 1) \<longrightarrow>
         iterationCalls env m ! 1 = ExecuteAttack (0, 0)
         \<and> board (loopBody env m) = snd (executeAttack (boardOps env) (board m) (0, 0)))"
proof -
  from assms have nf: "targetOf env m \<noteq> FORFEIT" by simp
  have b: "board (loopBody env m) =
             snd (executeAttack (boardOps env) (board m)
                    (fst (targetOf env m) - 1, snd (targetOf env m) - 1))"
    using nf by (simp add: loopBody_board)
  have calls: "iterationCalls env m ! 1 = ExecuteAttack (row - 1, col - 1)
    \<and> [c \<leftarrow> iterationCalls env m. \<exists>t. c = ExecuteAttack t] = [ExecuteAttack (row - 1, col - 1)]
    \<and> pieceOf env m = fst (executeAttack (boardOps env) (board m) (row - 1, col - 1))
    \<and> board (loopBody env m) = snd (executeAttack (boardOps env) (board m) (row - 1, col - 1))
    \<and> ((row, col) = (1, 1) \<longrightarrow>
         iterationCalls env m ! 1 = ExecuteAttack (0, 0)
         \<and> board (loopBody env m) = snd (executeAttack (boardOps env) (board m) (0, 0)))"
    using assms(2) by (auto simp: iterationCalls_attack [OF nf] b pieceOf_def assms(1))
  have r: "sint row \<noteq> - 2147483648 \<longrightarrow> sint (row - 1) = sint row - 1"
    by (simp add: sint_decrement)
  have c: "sint col \<noteq> - 2147483648 \<longrightarrow> sint (col - 1) = sint col - 1"
    by (simp add: sint_decrement)
  have p: "1 \<le> sint row \<and> 1 \<le> sint col \<longrightarrow> 0 \<le> sint (row - 1) \<and> 0 \<le> sint (col - 1)"
  proof
    assume a: "1 \<le> sint row \<and> 1 \<le> sint col"
    then have "sint (row - 1) = sint row - 1" "sint (col - 1) = sint col - 1"
      by (simp_all add: sint_decrement)
    with a show "0 \<le> sint (row - 1) \<and> 0 \<le> sint (col - 1)" by simp
  qed
  from calls r c p show ?thesis by blast
qed

theorem attack_target_normalised_witness:
  "targetOf scriptedGame (initialMatch scriptedGame newGameManager twoShips [(1, 1)] []) = (1, 1)
   \<and> (1, 1) \<noteq> FORFEIT
   \<and> iterationCalls scriptedGame
        (initialMatch scriptedGame newGameManager twoShips [(1, 1)] []) ! 1 = ExecuteAttack (0, 0)
   \<and> board (loopBody scriptedGame
        (initialMatch scriptedGame newGameManager twoShips [(1, 1)] [])) = twoShips
   \<and> sint (1 :: coordinate) \<noteq> - 2147483648
   \<and> sint ((1 :: coordinate) - 1) = sint (1 :: coordinate) - 1"
proof -
  have t: "targetOf scriptedGame (initialMatch scriptedGame newGameManager twoShips [(1, 1)] [])
             = (1, 1)"
    by (simp add: engine_defs example_defs)
  have n: "((1, 1) :: target) \<noteq> FORFEIT"
    by (simp add: FORFEIT_def FOREFEIT_COORDINATES_def)
  have s: "sint (1 :: coordinate) \<noteq> - 2147483648" by simp
  note inst = attack_target_normalised [OF t n]
  from inst s have d: "sint ((1 :: coordinate) - 1) = sint (1 :: coordinate) - 1" by blast
  from inst have "iterationCalls scriptedGame
        (initialMatch scriptedGame newGameManager twoShips [(1, 1)] []) ! 1 = ExecuteAttack (0, 0)
    \<and> board (loopBody scriptedGame
        (initialMatch scriptedGame newGameManager twoShips [(1, 1)] []))
      = snd (executeAttack (boardOps scriptedGame)
          (board (initialMatch scriptedGame newGameManager twoShips [(1, 1)] [])) (0, 0))"
    by simp
  then have "iterationCalls scriptedGame
        (initialMatch scriptedGame newGameManager twoShips [(1, 1)] []) ! 1 = ExecuteAttack (0, 0)
    \<and> board (loopBody scriptedGame
        (initialMatch scriptedGame newGameManager twoShips [(1, 1)] [])) = twoShips"
    by (simp add: initialMatch_def scriptedGame_def fleetBoard_def twoShips_def)
  with t n s d show ?thesis by blast
qed

text \<open>
  C6. Every attack that is not a forfeit is reported by exactly three calls that follow the
  board's attack execution: \<^verbatim>\<open>notifyOnAttackResult\<close> on player A, the same on player B, and
  \<^verbatim>\<open>visualizeAttackResults\<close>, all three with the decremented coordinates and with the
  outcome read off the game piece. The two notifications carry the number of the attacking
  player, 0 for A and 1 for B, whichever player attacked; the call on the visualizer takes
  the coordinates and the outcome only. Both player objects receive their notification:
  the object of each player after the iteration is the result of \<^verbatim>\<open>notifyOnAttackResult\<close>
  with these arguments on the object as line 60 left it.
\<close>

theorem attack_reported_to_all:
  assumes "targetOf env m = (row, col)" and "(row, col) \<noteq> FORFEIT"
  shows "iterationCalls env m =
           [AttackCall (currentPlayer m) (row, col),
            ExecuteAttack (row - 1, col - 1),
            NotifyOnAttackResult A (playerNumber (currentPlayer m)) (row - 1) (col - 1)
              (resultOf (pieceOf env m)),
            NotifyOnAttackResult B (playerNumber (currentPlayer m)) (row - 1) (col - 1)
              (resultOf (pieceOf env m)),
            VisualizeAttackResults (row - 1) (col - 1) (resultOf (pieceOf env m))]
    \<and> playerA (loopBody env m) =
        notifyOnAttackResult (algoA env)
          (if currentPlayer m = A then snd (attack (algoA env) (playerA m)) else playerA m)
          (playerNumber (currentPlayer m)) (row - 1) (col - 1) (resultOf (pieceOf env m))
    \<and> playerB (loopBody env m) =
        notifyOnAttackResult (algoB env)
          (if currentPlayer m = B then snd (attack (algoB env) (playerB m)) else playerB m)
          (playerNumber (currentPlayer m)) (row - 1) (col - 1) (resultOf (pieceOf env m))
    \<and> playerNumber A = 0 \<and> playerNumber B = 1"
proof -
  from assms have nf: "targetOf env m \<noteq> FORFEIT" by simp
  show ?thesis
    using loopBody_playerA [OF nf] loopBody_playerB [OF nf]
    by (simp add: iterationCalls_attack [OF nf] assms(1) playerNumber_def)
qed

theorem attack_reported_to_all_witness:
  "targetOf recordingGame
     (loopBody recordingGame
        (initialMatch recordingGame newGameManager twoShips ([(1, 1)], []) ([(3, 3)], [])))
     = (3, 3)
   \<and> (3, 3) \<noteq> FORFEIT
   \<and> iterationCalls recordingGame
       (loopBody recordingGame
          (initialMatch recordingGame newGameManager twoShips ([(1, 1)], []) ([(3, 3)], [])))
     = [AttackCall B (3, 3), ExecuteAttack (2, 2),
        NotifyOnAttackResult A 1 2 2 Sink, NotifyOnAttackResult B 1 2 2 Sink,
        VisualizeAttackResults 2 2 Sink]
   \<and> playerA (loopBody recordingGame (loopBody recordingGame
        (initialMatch recordingGame newGameManager twoShips ([(1, 1)], []) ([(3, 3)], []))))
     = ([], [Asked, Told 0 0 0 Miss, Told 1 2 2 Sink])
   \<and> playerB (loopBody recordingGame (loopBody recordingGame
        (initialMatch recordingGame newGameManager twoShips ([(1, 1)], []) ([(3, 3)], []))))
     = ([], [Told 0 0 0 Miss, Asked, Told 1 2 2 Sink])"
proof -
  let ?m = "loopBody recordingGame
     (initialMatch recordingGame newGameManager twoShips ([(1, 1)], []) ([(3, 3)], []))"
  have t: "targetOf recordingGame ?m = (3, 3)"
    by (simp add: engine_defs example_defs)
  have n: "((3, 3) :: target) \<noteq> FORFEIT"
    by (simp add: FORFEIT_def FOREFEIT_COORDINATES_def)
  have c: "currentPlayer ?m = B"
    by (simp add: engine_defs example_defs)
  have p: "pieceOf recordingGame ?m = Some \<lparr>lifeLeft = 0\<rparr>"
    by (simp add: engine_defs example_defs)
  have a: "playerA ?m = ([], [Asked, Told 0 0 0 Miss])"
    by (simp add: engine_defs example_defs)
  have b: "playerB ?m = ([(3, 3)], [Told 0 0 0 Miss])"
    by (simp add: engine_defs example_defs)
  have algo: "algoA recordingGame = recordingAlgo" "algoB recordingGame = recordingAlgo"
    by (simp_all add: recordingGame_def)
  show ?thesis
    using attack_reported_to_all [OF t n] t n
    by (simp add: c p a b algo resultOf_def recordingAlgo_def)
qed

text \<open>
  The call on the visualizer is the same call whether player A or player B attacked: in the
  first two iterations of a match in which both players attack the empty cell (1,1), the two
  notifications differ in the number of the attacker, and the visualizer receives
  \<^verbatim>\<open>visualizeAttackResults(0, 0, Miss)\<close> both times.
\<close>

theorem visualizer_gets_no_attacker_counterexample:
  "currentPlayer (initialMatch scriptedGame newGameManager twoShips [(1, 1)] [(1, 1)]) = A
   \<and> currentPlayer
       (loopBody scriptedGame (initialMatch scriptedGame newGameManager twoShips [(1, 1)] [(1, 1)]))
     = B
   \<and> last (iterationCalls scriptedGame
        (initialMatch scriptedGame newGameManager twoShips [(1, 1)] [(1, 1)]))
     = last (iterationCalls scriptedGame
         (loopBody scriptedGame
            (initialMatch scriptedGame newGameManager twoShips [(1, 1)] [(1, 1)])))
   \<and> iterationCalls scriptedGame
     (initialMatch scriptedGame newGameManager twoShips [(1, 1)] [(1, 1)])
     = [AttackCall A (1, 1), ExecuteAttack (0, 0),
        NotifyOnAttackResult A 0 0 0 Miss, NotifyOnAttackResult B 0 0 0 Miss,
        VisualizeAttackResults 0 0 Miss]
   \<and> iterationCalls scriptedGame
       (loopBody scriptedGame (initialMatch scriptedGame newGameManager twoShips [(1, 1)] [(1, 1)]))
     = [AttackCall B (1, 1), ExecuteAttack (0, 0),
        NotifyOnAttackResult A 1 0 0 Miss, NotifyOnAttackResult B 1 0 0 Miss,
        VisualizeAttackResults 0 0 Miss]"
  by (simp add: engine_defs example_defs)

text \<open>
  C8. When the board's attack execution returns no game piece, the attack is reported as a
  miss: the three calls carry \<^verbatim>\<open>AttackResult::Miss\<close> for the decremented coordinates, and
  the objects of both players are those that \<^verbatim>\<open>notifyOnAttackResult\<close> returns for
  \<^verbatim>\<open>Miss\<close>. The engine has no path that fails: the iteration ends in an ordinary state of
  the match, with the board as the attack execution left it, the forfeit flags and the
  manager as they were, and the turn passed on by \<^verbatim>\<open>switchPlayerTurns\<close>. This holds for any
  board and any target, and so for a cell that was attacked before.
\<close>

theorem no_piece_is_miss:
  assumes "targetOf env m = (row, col)" and "(row, col) \<noteq> FORFEIT" and "pieceOf env m = None"
  shows "iterationCalls env m =
           [AttackCall (currentPlayer m) (row, col),
            ExecuteAttack (row - 1, col - 1),
            NotifyOnAttackResult A (playerNumber (currentPlayer m)) (row - 1) (col - 1) Miss,
            NotifyOnAttackResult B (playerNumber (currentPlayer m)) (row - 1) (col - 1) Miss,
            VisualizeAttackResults (row - 1) (col - 1) Miss]
    \<and> playerA (loopBody env m) =
        notifyOnAttackResult (algoA env)
          (if currentPlayer m = A then snd (attack (algoA env) (playerA m)) else playerA m)
          (playerNumber (currentPlayer m)) (row - 1) (col - 1) Miss
    \<and> playerB (loopBody env m) =
        notifyOnAttackResult (algoB env)
          (if currentPlayer m = B then snd (attack (algoB env) (playerB m)) else playerB m)
          (playerNumber (currentPlayer m)) (row - 1) (col - 1) Miss
    \<and> board (loopBody env m) = snd (executeAttack (boardOps env) (board m) (row - 1, col - 1))
    \<and> isPlayerAForfeit (loopBody env m) = isPlayerAForfeit m
    \<and> isPlayerBForfeit (loopBody env m) = isPlayerBForfeit m
    \<and> manager (loopBody env m) = manager m
    \<and> currentPlayer (loopBody env m) =
        switchPlayerTurns A B (currentPlayer m) (isPlayerAForfeit m) (isPlayerBForfeit m)"
proof -
  from assms have nf: "targetOf env m \<noteq> FORFEIT" by simp
  have fl: "isPlayerAForfeit (loopBody env m) = isPlayerAForfeit m"
    "isPlayerBForfeit (loopBody env m) = isPlayerBForfeit m"
    using loopBody_forfeited [of env m A] loopBody_forfeited [of env m B] nf
    by (simp_all add: forfeited_def)
  have b: "board (loopBody env m) =
             snd (executeAttack (boardOps env) (board m)
                    (fst (targetOf env m) - 1, snd (targetOf env m) - 1))"
    using nf by (simp add: loopBody_board)
  have cp: "currentPlayer (loopBody env m) =
        switchPlayerTurns A B (currentPlayer m) (isPlayerAForfeit m) (isPlayerBForfeit m)"
    using nf assms(3) by (simp add: loopBody_currentPlayer)
  show ?thesis
    using loopBody_playerA [OF nf] loopBody_playerB [OF nf]
    by (simp add: iterationCalls_attack [OF nf] assms(1) assms(3) resultOf_def
        b cp fl loopBody_manager)
qed

theorem no_piece_is_miss_witness:
  "targetOf recordingGame
     (loopBody recordingGame
        (initialMatch recordingGame newGameManager twoShips ([(5, 5), (5, 5)], []) ([], [])))
     = (5, 5)
   \<and> (5, 5) \<noteq> FORFEIT
   \<and> pieceOf recordingGame
       (loopBody recordingGame
          (initialMatch recordingGame newGameManager twoShips ([(5, 5), (5, 5)], []) ([], [])))
     = None
   \<and> iterationCalls recordingGame
       (initialMatch recordingGame newGameManager twoShips ([(5, 5), (5, 5)], []) ([], []))
     = [AttackCall A (5, 5), ExecuteAttack (4, 4),
        NotifyOnAttackResult A 0 4 4 Hit, NotifyOnAttackResult B 0 4 4 Hit,
        VisualizeAttackResults 4 4 Hit]
   \<and> iterationCalls recordingGame
       (loopBody recordingGame
          (initialMatch recordingGame newGameManager twoShips ([(5, 5), (5, 5)], []) ([], [])))
     = [AttackCall A (5, 5), ExecuteAttack (4, 4),
        NotifyOnAttackResult A 0 4 4 Miss, NotifyOnAttackResult B 0 4 4 Miss,
        VisualizeAttackResults 4 4 Miss]
   \<and> playerA (loopBody recordingGame (loopBody recordingGame
        (initialMatch recordingGame newGameManager twoShips ([(5, 5), (5, 5)], []) ([], []))))
     = ([], [Asked, Told 0 4 4 Hit, Asked, Told 0 4 4 Miss])
   \<and> playerB (loopBody recordingGame (loopBody recordingGame
        (initialMatch recordingGame newGameManager twoShips ([(5, 5), (5, 5)], []) ([], []))))
     = ([], [Told 0 4 4 Hit, Told 0 4 4 Miss])
   \<and> currentPlayer (loopBody recordingGame (loopBody recordingGame
        (initialMatch recordingGame newGameManager twoShips ([(5, 5), (5, 5)], []) ([], []))))
     = B"
proof -
  let ?s = "initialMatch recordingGame newGameManager twoShips ([(5, 5), (5, 5)], []) ([], [])"
  let ?m = "loopBody recordingGame ?s"
  have t: "targetOf recordingGame ?m = (5, 5)"
    by (simp add: engine_defs example_defs)
  have n: "((5, 5) :: target) \<noteq> FORFEIT"
    by (simp add: FORFEIT_def FOREFEIT_COORDINATES_def)
  have p: "pieceOf recordingGame ?m = None"
    by (simp add: engine_defs example_defs)
  have c: "currentPlayer ?m = A" "isPlayerAForfeit ?m = False" "isPlayerBForfeit ?m = False"
    by (simp_all add: engine_defs example_defs)
  have a: "playerA ?m = ([(5, 5)], [Asked, Told 0 4 4 Hit])"
    by (simp add: engine_defs example_defs)
  have b: "playerB ?m = ([], [Told 0 4 4 Hit])"
    by (simp add: engine_defs example_defs)
  have algo: "algoA recordingGame = recordingAlgo" "algoB recordingGame = recordingAlgo"
    by (simp_all add: recordingGame_def)
  have first: "iterationCalls recordingGame ?s
     = [AttackCall A (5, 5), ExecuteAttack (4, 4),
        NotifyOnAttackResult A 0 4 4 Hit, NotifyOnAttackResult B 0 4 4 Hit,
        VisualizeAttackResults 4 4 Hit]"
    by (simp add: engine_defs example_defs)
  show ?thesis
    using no_piece_is_miss [OF t n p] t n p first
    by (simp add: c a b algo playerNumber_def recordingAlgo_def switchPlayerTurns_def)
qed

text \<open>
  C2. In every iteration of the loop: an attack whose outcome is a hit or a sink leaves the
  active player unchanged; a miss, and a forfeit, make the other player active when the
  other player has not forfeited. When the other player has forfeited already, a miss leaves
  the attacker active, and a forfeit leaves both flags set, which ends the game.
\<close>

theorem turn_after_iteration:
  "(targetOf env m \<noteq> FORFEIT \<longrightarrow>
      last (iterationCalls env m) =
        VisualizeAttackResults (fst (targetOf env m) - 1) (snd (targetOf env m) - 1)
          (resultOf (pieceOf env m)))
   \<and> (targetOf env m \<noteq> FORFEIT \<and> resultOf (pieceOf env m) \<in> {Hit, Sink} \<longrightarrow>
        currentPlayer (loopBody env m) = currentPlayer m)
   \<and> ((targetOf env m = FORFEIT \<or> resultOf (pieceOf env m) = Miss)
        \<and> \<not> forfeited m (opponent (currentPlayer m)) \<longrightarrow>
        currentPlayer (loopBody env m) = opponent (currentPlayer m))
   \<and> (targetOf env m \<noteq> FORFEIT \<and> resultOf (pieceOf env m) = Miss
        \<and> forfeited m (opponent (currentPlayer m)) \<and> \<not> forfeited m (currentPlayer m) \<longrightarrow>
        currentPlayer (loopBody env m) = currentPlayer m)
   \<and> (targetOf env m = FORFEIT \<and> forfeited m (opponent (currentPlayer m)) \<longrightarrow>
        isPlayerAForfeit (loopBody env m) \<and> isPlayerBForfeit (loopBody env m)
        \<and> gameOver env (loopBody env m))"
proof -
  have res: "resultOf g = Miss \<longleftrightarrow> g = None" for g
    by (simp add: resultOf_def split: option.split)
  have c1: "targetOf env m \<noteq> FORFEIT \<longrightarrow>
      last (iterationCalls env m) =
        VisualizeAttackResults (fst (targetOf env m) - 1) (snd (targetOf env m) - 1)
          (resultOf (pieceOf env m))"
    by (simp add: iterationCalls_attack)
  have c2: "targetOf env m \<noteq> FORFEIT \<and> resultOf (pieceOf env m) \<in> {Hit, Sink} \<longrightarrow>
        currentPlayer (loopBody env m) = currentPlayer m"
  proof (cases "pieceOf env m = None")
    case True
    then show ?thesis by (simp add: resultOf_def)
  next
    case False
    then show ?thesis by (auto simp: loopBody_currentPlayer)
  qed
  have c3: "(targetOf env m = FORFEIT \<or> resultOf (pieceOf env m) = Miss)
        \<and> \<not> forfeited m (opponent (currentPlayer m)) \<longrightarrow>
        currentPlayer (loopBody env m) = opponent (currentPlayer m)"
    by (cases "currentPlayer m")
       (simp_all add: loopBody_currentPlayer switchPlayerTurns_def forfeited_def res)
  have c4: "targetOf env m \<noteq> FORFEIT \<and> resultOf (pieceOf env m) = Miss
        \<and> forfeited m (opponent (currentPlayer m)) \<and> \<not> forfeited m (currentPlayer m) \<longrightarrow>
        currentPlayer (loopBody env m) = currentPlayer m"
    by (cases "currentPlayer m")
       (simp_all add: loopBody_currentPlayer switchPlayerTurns_def forfeited_def res)
  have c5: "targetOf env m = FORFEIT \<and> forfeited m (opponent (currentPlayer m)) \<longrightarrow>
        isPlayerAForfeit (loopBody env m) \<and> isPlayerBForfeit (loopBody env m)
        \<and> gameOver env (loopBody env m)"
  proof
    assume a: "targetOf env m = FORFEIT \<and> forfeited m (opponent (currentPlayer m))"
    then have "forfeited (loopBody env m) A \<and> forfeited (loopBody env m) B"
      by (cases "currentPlayer m") (simp_all add: loopBody_forfeited)
    then have "isPlayerAForfeit (loopBody env m) \<and> isPlayerBForfeit (loopBody env m)"
      by (simp add: forfeited_def)
    then show "isPlayerAForfeit (loopBody env m) \<and> isPlayerBForfeit (loopBody env m)
        \<and> gameOver env (loopBody env m)"
      by (simp add: gameOver_def isGameOver_def)
  qed
  from c1 c2 c3 c4 c5 show ?thesis by blast
qed

text \<open>
  A miss that does not change the active player. Player A misses, player B forfeits, and
  player A misses again: the game is not over, and it is player A's turn again.
\<close>

theorem miss_keeps_turn_counterexample:
  "currentPlayer
     (loopBody scriptedGame (loopBody scriptedGame
        (initialMatch scriptedGame newGameManager twoShips [(1, 1), (1, 1)] []))) = A
   \<and> \<not> gameOver scriptedGame
       (loopBody scriptedGame (loopBody scriptedGame
          (initialMatch scriptedGame newGameManager twoShips [(1, 1), (1, 1)] [])))
   \<and> iterationCalls scriptedGame
       (loopBody scriptedGame (loopBody scriptedGame
          (initialMatch scriptedGame newGameManager twoShips [(1, 1), (1, 1)] [])))
     = [AttackCall A (1, 1), ExecuteAttack (0, 0),
        NotifyOnAttackResult A 0 0 0 Miss, NotifyOnAttackResult B 0 0 0 Miss,
        VisualizeAttackResults 0 0 Miss]
   \<and> currentPlayer
       (loopBody scriptedGame (loopBody scriptedGame (loopBody scriptedGame
          (initialMatch scriptedGame newGameManager twoShips [(1, 1), (1, 1)] [])))) = A"
  by (simp add: engine_defs example_defs)

theorem turn_after_iteration_witness:
  "targetOf scriptedGame (initialMatch scriptedGame newGameManager twoShips [(5, 5)] []) \<noteq> FORFEIT
   \<and> resultOf (pieceOf scriptedGame
        (initialMatch scriptedGame newGameManager twoShips [(5, 5)] [])) \<in> {Hit, Sink}
   \<and> currentPlayer (loopBody scriptedGame
        (initialMatch scriptedGame newGameManager twoShips [(5, 5)] [])) = A
   \<and> resultOf (pieceOf scriptedGame
        (initialMatch scriptedGame newGameManager twoShips [(1, 1)] [])) = Miss
   \<and> \<not> forfeited (initialMatch scriptedGame newGameManager twoShips [(1, 1)] []) B
   \<and> currentPlayer (loopBody scriptedGame
        (initialMatch scriptedGame newGameManager twoShips [(1, 1)] [])) = B
   \<and> targetOf scriptedGame (initialMatch scriptedGame newGameManager twoShips [] []) = FORFEIT
   \<and> currentPlayer (loopBody scriptedGame
        (initialMatch scriptedGame newGameManager twoShips [] [])) = B
   \<and> forfeited (loopBody scriptedGame (loopBody scriptedGame
        (initialMatch scriptedGame newGameManager twoShips [(1, 1), (1, 1)] []))) B
   \<and> currentPlayer (loopBody scriptedGame (loopBody scriptedGame (loopBody scriptedGame
        (initialMatch scriptedGame newGameManager twoShips [(1, 1), (1, 1)] [])))) = A
   \<and> forfeited (loopBody scriptedGame
        (initialMatch scriptedGame newGameManager twoShips [] [])) A
   \<and> gameOver scriptedGame (loopBody scriptedGame (loopBody scriptedGame
        (initialMatch scriptedGame newGameManager twoShips [] [])))"
proof -
  let ?stay = "loopBody scriptedGame (loopBody scriptedGame
        (initialMatch scriptedGame newGameManager twoShips [(1, 1), (1, 1)] []))"
  let ?both = "loopBody scriptedGame (initialMatch scriptedGame newGameManager twoShips [] [])"
  have st: "targetOf scriptedGame ?stay \<noteq> FORFEIT"
    "resultOf (pieceOf scriptedGame ?stay) = Miss"
    "forfeited ?stay (opponent (currentPlayer ?stay))" "\<not> forfeited ?stay (currentPlayer ?stay)"
    "currentPlayer ?stay = A" "forfeited ?stay B"
    by (simp_all add: engine_defs example_defs)
  have bo: "targetOf scriptedGame ?both = FORFEIT"
    "forfeited ?both (opponent (currentPlayer ?both))" "forfeited ?both A"
    by (simp_all add: engine_defs example_defs)
  have "currentPlayer (loopBody scriptedGame ?stay) = currentPlayer ?stay"
    using turn_after_iteration [of scriptedGame ?stay] st(1,2,3,4) by blast
  then have stay: "currentPlayer (loopBody scriptedGame ?stay) = A"
    by (simp add: st(5))
  have both: "gameOver scriptedGame (loopBody scriptedGame ?both)"
    using turn_after_iteration [of scriptedGame ?both] bo(1,2) by blast
  let ?hit = "initialMatch scriptedGame newGameManager twoShips [(5, 5)] []"
  let ?miss = "initialMatch scriptedGame newGameManager twoShips [(1, 1)] []"
  let ?forfeit = "initialMatch scriptedGame newGameManager twoShips [] []"
  have h: "targetOf scriptedGame ?hit \<noteq> FORFEIT"
    "resultOf (pieceOf scriptedGame ?hit) \<in> {Hit, Sink}" "currentPlayer ?hit = A"
    by (simp_all add: engine_defs example_defs)
  have ms: "resultOf (pieceOf scriptedGame ?miss) = Miss" "\<not> forfeited ?miss B"
    "opponent (currentPlayer ?miss) = B"
    by (simp_all add: engine_defs example_defs)
  have f: "targetOf scriptedGame ?forfeit = FORFEIT" "\<not> forfeited ?forfeit B"
    "opponent (currentPlayer ?forfeit) = B"
    by (simp_all add: engine_defs example_defs)
  have "currentPlayer (loopBody scriptedGame ?hit) = currentPlayer ?hit"
    using turn_after_iteration [of scriptedGame ?hit] h(1,2) by blast
  moreover have "currentPlayer (loopBody scriptedGame ?miss) = opponent (currentPlayer ?miss)"
    using turn_after_iteration [of scriptedGame ?miss] ms(1,2,3) by metis
  moreover have "currentPlayer (loopBody scriptedGame ?forfeit) = opponent (currentPlayer ?forfeit)"
    using turn_after_iteration [of scriptedGame ?forfeit] f(1,2,3) by metis
  ultimately show ?thesis
    using h ms f stay both st(6) bo(3) by simp
qed

section \<open>Forfeits\<close>

lemma attackCall_in_iteration:
  "AttackCall p t \<in> set (iterationCalls env m) \<longleftrightarrow> p = currentPlayer m \<and> t = targetOf env m"
  by (cases "targetOf env m = FORFEIT")
     (auto simp: iterationCalls_attack iterationCalls_forfeit)

lemma initialMatch_fields:
  "manager (initialMatch env gm b pA pB) = gm"
  "board (initialMatch env gm b pA pB) = b"
  "currentPlayer (initialMatch env gm b pA pB) = A"
  "isPlayerAForfeit (initialMatch env gm b pA pB) = False"
  "isPlayerBForfeit (initialMatch env gm b pA pB) = False"
  "calls (initialMatch env gm b pA pB) =
     [SetBoard A (getBoardMatrix (boardOps env) b) (BOARD_SIZE env) (BOARD_SIZE env),
      SetBoard B (getBoardMatrix (boardOps env) b) (BOARD_SIZE env) (BOARD_SIZE env)]"
  by (simp_all add: initialMatch_def Let_def)

lemma forfeited_iff_sentinel:
  assumes "loopHead env (initialMatch env gm b pA pB) m"
  shows "forfeited m p \<longleftrightarrow> AttackCall p FORFEIT \<in> set (calls m)"
  using assms
proof (induction rule: loopHead.induct)
  case enter
  show ?case by (auto simp: forfeited_def initialMatch_fields)
next
  case (iterate m)
  then show ?case
    by (auto simp: loopBody_forfeited calls_loopBody attackCall_in_iteration)
qed

lemma active_not_forfeited:
  assumes "loopHead env (initialMatch env gm b pA pB) m"
  shows "\<not> (forfeited m A \<and> forfeited m B) \<longrightarrow> \<not> forfeited m (currentPlayer m)"
  using assms
proof (induction rule: loopHead.induct)
  case enter
  show ?case by (simp add: forfeited_def initialMatch_fields)
next
  case (iterate m)
  have ab: "isPlayerAForfeit m = forfeited m A" "isPlayerBForfeit m = forfeited m B"
    by (simp_all add: forfeited_def)
  from iterate(2) have nb: "\<not> (forfeited m A \<and> forfeited m B)"
    by (auto simp: gameOver_def isGameOver_def forfeited_def)
  with iterate(3) have cur: "\<not> forfeited m (currentPlayer m)" by simp
  show ?case
  proof (cases "currentPlayer m")
    case A
    with cur have "\<not> forfeited m A" by simp
    then show ?thesis
      by (simp add: loopBody_forfeited loopBody_currentPlayer switchPlayerTurns_def ab A)
  next
    case B
    with cur have "\<not> forfeited m B" by simp
    then show ?thesis
      by (simp add: loopBody_forfeited loopBody_currentPlayer switchPlayerTurns_def ab B)
  qed
qed

lemma gameOver_flags: "forfeited m A \<and> forfeited m B \<Longrightarrow> gameOver env m"
  by (simp add: gameOver_def isGameOver_def forfeited_def)

lemma no_attack_after_forfeit:
  assumes "loopHead env (initialMatch env gm b pA pB) m"
  shows "calls m = xs @ AttackCall p FORFEIT # ys \<Longrightarrow> AttackCall p t \<notin> set ys"
  using assms
proof (induction arbitrary: xs ys rule: loopHead.induct)
  case enter
  then show ?case by (auto simp: initialMatch_fields Cons_eq_append_conv append_eq_Cons_conv)
next
  case (iterate m)
  let ?ic = "iterationCalls env m"
  from iterate.prems have eq: "calls m @ ?ic = xs @ AttackCall p FORFEIT # ys"
    by (simp add: calls_loopBody)
  have cur: "\<not> forfeited m (currentPlayer m)"
    using active_not_forfeited [OF iterate.hyps(1)] iterate.hyps(2) gameOver_flags [of m env]
    by blast
  from eq consider
      (old) ys0 where "calls m = xs @ AttackCall p FORFEIT # ys0" "ys = ys0 @ ?ic"
    | (new) xs1 where "?ic = xs1 @ AttackCall p FORFEIT # ys"
    by (auto simp: append_eq_append_conv2 Cons_eq_append_conv append_eq_Cons_conv)
  then show ?case
  proof cases
    case old
    from old(1) have "AttackCall p t \<notin> set ys0" by (rule iterate.IH)
    moreover from old(1) have "forfeited m p"
      by (simp add: forfeited_iff_sentinel [OF iterate.hyps(1)])
    with cur have "p \<noteq> currentPlayer m" by auto
    then have "AttackCall p t \<notin> set ?ic" by (simp add: attackCall_in_iteration)
    ultimately show ?thesis by (simp add: old(2))
  next
    case new
    show ?thesis
    proof (cases "targetOf env m = FORFEIT")
      case True
      with new show ?thesis
        by (auto simp: iterationCalls_forfeit Cons_eq_append_conv append_eq_Cons_conv)
    next
      case False
      with new show ?thesis
        by (auto simp: iterationCalls_attack Cons_eq_append_conv append_eq_Cons_conv)
    qed
  qed
qed

text \<open>
  C7. In every state in which the loop condition is evaluated: a player's forfeit flag is
  set exactly when that player has returned the forfeit sentinel; a flag that is set is
  still set after the next iteration; when the game is not over, the active player, the only
  player whose \<^verbatim>\<open>attack()\<close> the next iteration calls, has not forfeited; and no call of
  \<^verbatim>\<open>attack()\<close> on a player follows a call in which that player returned the sentinel. The
  call that follows the loop is a call on the visualizer, so this covers every call of
  \<^verbatim>\<open>attack()\<close> of a match. The player objects agree with the calls: line 60 applies
  \<^verbatim>\<open>attack()\<close> to the object of the active player and leaves the other object as it is, and
  through an iteration the object of a player that has forfeited changes by the
  notification of an attack result at most.
\<close>

theorem forfeit_is_permanent:
  assumes "loopHead env (initialMatch env gm b pA pB) m"
  shows "(forfeited m p \<longleftrightarrow> AttackCall p FORFEIT \<in> set (calls m))
    \<and> (forfeited m p \<longrightarrow> forfeited (loopBody env m) p)
    \<and> (\<not> gameOver env m \<longrightarrow>
         \<not> forfeited m (currentPlayer m)
         \<and> (\<forall>q t. AttackCall q t \<in> set (iterationCalls env m) \<longrightarrow> q = currentPlayer m))
    \<and> (\<forall>xs ys t. calls m = xs @ AttackCall p FORFEIT # ys \<longrightarrow> AttackCall p t \<notin> set ys)
    \<and> playerObject (snd (callAttack env m)) p =
         (if p = currentPlayer m then snd (attack (algoOf env p) (playerObject m p))
          else playerObject m p)
    \<and> (\<not> gameOver env m \<and> forfeited m p \<longrightarrow>
         playerObject (loopBody env m) p =
           (if targetOf env m = FORFEIT then playerObject m p
            else notifyOnAttackResult (algoOf env p) (playerObject m p)
                   (playerNumber (currentPlayer m))
                   (fst (targetOf env m) - 1) (snd (targetOf env m) - 1)
                   (resultOf (pieceOf env m))))"
proof -
  have act: "\<not> gameOver env m \<longrightarrow> \<not> forfeited m (currentPlayer m)"
    using active_not_forfeited [OF assms] gameOver_flags [of m env] by blast
  have trace: "\<forall>xs ys t. calls m = xs @ AttackCall p FORFEIT # ys \<longrightarrow> AttackCall p t \<notin> set ys"
    using no_attack_after_forfeit [OF assms] by blast
  have flag: "forfeited m p \<longleftrightarrow> AttackCall p FORFEIT \<in> set (calls m)"
    by (rule forfeited_iff_sentinel [OF assms])
  have keep: "forfeited m p \<longrightarrow> forfeited (loopBody env m) p"
    by (simp add: loopBody_forfeited)
  have only: "\<forall>q t. AttackCall q t \<in> set (iterationCalls env m) \<longrightarrow> q = currentPlayer m"
    by (simp add: attackCall_in_iteration)
  have asked: "playerObject (snd (callAttack env m)) p =
         (if p = currentPlayer m then snd (attack (algoOf env p) (playerObject m p))
          else playerObject m p)"
    by (rule callAttack_objects(2))
  have obj: "\<not> gameOver env m \<and> forfeited m p \<longrightarrow>
         playerObject (loopBody env m) p =
           (if targetOf env m = FORFEIT then playerObject m p
            else notifyOnAttackResult (algoOf env p) (playerObject m p)
                   (playerNumber (currentPlayer m))
                   (fst (targetOf env m) - 1) (snd (targetOf env m) - 1)
                   (resultOf (pieceOf env m)))"
  proof
    assume a: "\<not> gameOver env m \<and> forfeited m p"
    with act have "p \<noteq> currentPlayer m" by auto
    then have "playerObject (snd (callAttack env m)) p = playerObject m p"
      by (simp add: callAttack_objects(2))
    then show "playerObject (loopBody env m) p =
           (if targetOf env m = FORFEIT then playerObject m p
            else notifyOnAttackResult (algoOf env p) (playerObject m p)
                   (playerNumber (currentPlayer m))
                   (fst (targetOf env m) - 1) (snd (targetOf env m) - 1)
                   (resultOf (pieceOf env m)))"
      by (simp add: loopBody_objects)
  qed
  from act trace flag keep only asked obj show ?thesis by blast
qed

theorem forfeit_is_permanent_witness:
  "loopHead recordingGame
     (initialMatch recordingGame newGameManager twoShips ([(1, 1), (1, 1)], []) ([], []))
     (loopBody recordingGame (loopBody recordingGame
        (initialMatch recordingGame newGameManager twoShips ([(1, 1), (1, 1)], []) ([], []))))
   \<and> calls (loopBody recordingGame (loopBody recordingGame
        (initialMatch recordingGame newGameManager twoShips ([(1, 1), (1, 1)], []) ([], []))))
     = [SetBoard A () 10 10, SetBoard B () 10 10, AttackCall A (1, 1), ExecuteAttack (0, 0),
        NotifyOnAttackResult A 0 0 0 Miss, NotifyOnAttackResult B 0 0 0 Miss,
        VisualizeAttackResults 0 0 Miss, AttackCall B FORFEIT]
   \<and> forfeited (loopBody recordingGame (loopBody recordingGame
        (initialMatch recordingGame newGameManager twoShips ([(1, 1), (1, 1)], []) ([], [])))) B
   \<and> forfeited (loopBody recordingGame (loopBody recordingGame (loopBody recordingGame
        (initialMatch recordingGame newGameManager twoShips ([(1, 1), (1, 1)], []) ([], []))))) B
   \<and> \<not> gameOver recordingGame (loopBody recordingGame (loopBody recordingGame
        (initialMatch recordingGame newGameManager twoShips ([(1, 1), (1, 1)], []) ([], []))))
   \<and> \<not> forfeited (loopBody recordingGame (loopBody recordingGame
        (initialMatch recordingGame newGameManager twoShips ([(1, 1), (1, 1)], []) ([], [])))) A
   \<and> currentPlayer (loopBody recordingGame (loopBody recordingGame
        (initialMatch recordingGame newGameManager twoShips ([(1, 1), (1, 1)], []) ([], []))))
      = A
   \<and> playerB (loopBody recordingGame (loopBody recordingGame
        (initialMatch recordingGame newGameManager twoShips ([(1, 1), (1, 1)], []) ([], []))))
      = ([], [Told 0 0 0 Miss, Asked])
   \<and> playerB (loopBody recordingGame (loopBody recordingGame (loopBody recordingGame
        (initialMatch recordingGame newGameManager twoShips ([(1, 1), (1, 1)], []) ([], [])))))
      = ([], [Told 0 0 0 Miss, Asked, Told 0 0 0 Miss])"
proof -
  let ?m0 = "initialMatch recordingGame newGameManager twoShips ([(1, 1), (1, 1)], []) ([], [])"
  let ?m1 = "loopBody recordingGame ?m0"
  let ?m2 = "loopBody recordingGame ?m1"
  have l0: "loopHead recordingGame ?m0 ?m0" by (rule loopHead.enter)
  have "\<not> gameOver recordingGame ?m0" by (simp add: engine_defs example_defs)
  with l0 have l1: "loopHead recordingGame ?m0 ?m1" by (rule loopHead.iterate)
  have "\<not> gameOver recordingGame ?m1" by (simp add: engine_defs example_defs)
  with l1 have l2: "loopHead recordingGame ?m0 ?m2" by (rule loopHead.iterate)
  have c: "calls ?m2
     = [SetBoard A () 10 10, SetBoard B () 10 10, AttackCall A (1, 1), ExecuteAttack (0, 0),
        NotifyOnAttackResult A 0 0 0 Miss, NotifyOnAttackResult B 0 0 0 Miss,
        VisualizeAttackResults 0 0 Miss, AttackCall B FORFEIT]"
    by (simp add: engine_defs example_defs)
  have g: "\<not> gameOver recordingGame ?m2" by (simp add: engine_defs example_defs)
  have cur: "currentPlayer ?m2 = A" by (simp add: engine_defs example_defs)
  have t: "targetOf recordingGame ?m2 = (1, 1)" "pieceOf recordingGame ?m2 = None"
    by (simp_all add: engine_defs example_defs)
  have nf: "targetOf recordingGame ?m2 \<noteq> FORFEIT"
    by (simp add: t(1) FORFEIT_def FOREFEIT_COORDINATES_def)
  have pb: "playerB ?m2 = ([], [Told 0 0 0 Miss, Asked])"
    by (simp add: engine_defs example_defs)
  note inst = forfeit_is_permanent [OF l2, of B]
  have fB: "forfeited ?m2 B" using inst c by simp
  have fB': "forfeited (loopBody recordingGame ?m2) B" using inst fB by blast
  have "\<not> forfeited ?m2 (currentPlayer ?m2)" using inst g by blast
  then have fA: "\<not> forfeited ?m2 A" by (simp add: cur)
  have "playerObject (loopBody recordingGame ?m2) B =
      (if targetOf recordingGame ?m2 = FORFEIT then playerObject ?m2 B
       else notifyOnAttackResult (algoOf recordingGame B) (playerObject ?m2 B)
              (playerNumber (currentPlayer ?m2))
              (fst (targetOf recordingGame ?m2) - 1) (snd (targetOf recordingGame ?m2) - 1)
              (resultOf (pieceOf recordingGame ?m2)))"
    using inst g fB by blast
  then have "playerObject (loopBody recordingGame ?m2) B =
      notifyOnAttackResult (algoOf recordingGame B) (playerObject ?m2 B)
        (playerNumber A) (fst (targetOf recordingGame ?m2) - 1)
        (snd (targetOf recordingGame ?m2) - 1) (resultOf (pieceOf recordingGame ?m2))"
    using nf by (simp add: cur)
  moreover have "algoB recordingGame = recordingAlgo"
    by (simp add: recordingGame_def)
  ultimately
  have pb': "playerB (loopBody recordingGame ?m2) = ([], [Told 0 0 0 Miss, Asked, Told 0 0 0 Miss])"
    by (simp add: t pb playerObject_def algoOf_def recordingAlgo_def
        playerNumber_def resultOf_def)
  show ?thesis using l2 c fB fB' g fA cur pb pb' by simp
qed

section \<open>The end of the game\<close>

lemma no_endGame_call_in_loop:
  assumes "loopHead env (initialMatch env gm b pA pB) m"
  shows "VisualizeEndGame b' x y \<notin> set (calls m)"
  using assms
proof (induction rule: loopHead.induct)
  case enter
  show ?case by (simp add: initialMatch_fields)
next
  case (iterate m)
  have "VisualizeEndGame b' x y \<notin> set (iterationCalls env m)"
    by (cases "targetOf env m = FORFEIT")
       (simp_all add: iterationCalls_attack iterationCalls_forfeit)
  with iterate.IH show ?case by (simp add: calls_loopBody)
qed

lemma startGame_Some:
  "startGame env gm b pA pB = Some m \<longleftrightarrow>
     (\<exists>m'. loopHead env (initialMatch env gm b pA pB) m' \<and> gameOver env m' \<and> m = endGame m')"
proof
  assume "startGame env gm b pA pB = Some m"
  then obtain m' where "gameLoop env (initialMatch env gm b pA pB) = Some m'" "m = endGame m'"
    by (auto simp: startGame_def)
  then show "\<exists>m'. loopHead env (initialMatch env gm b pA pB) m' \<and> gameOver env m' \<and> m = endGame m'"
    by (auto dest: gameLoop_Some_loopHead)
next
  assume "\<exists>m'. loopHead env (initialMatch env gm b pA pB) m' \<and> gameOver env m' \<and> m = endGame m'"
  then obtain m' where m': "loopHead env (initialMatch env gm b pA pB) m'" "gameOver env m'"
    "m = endGame m'" by blast
  have "gameLoop env (initialMatch env gm b pA pB) = Some m'"
    by (simp add: loopHead_gameLoop [OF m'(1)] gameLoop.simps [of env m'] m'(2))
  then show "startGame env gm b pA pB = Some m"
    by (simp add: startGame_def m'(3))
qed

lemma endGame_fields:
  "calls (endGame m) =
     calls m @ [VisualizeEndGame (board m) (isPlayerAForfeit m) (isPlayerBForfeit m)]"
  "board (endGame m) = board m"
  "manager (endGame m) = manager m"
  "isPlayerAForfeit (endGame m) = isPlayerAForfeit m"
  "isPlayerBForfeit (endGame m) = isPlayerBForfeit m"
  by (simp_all add: endGame_def)

text \<open>
  C9. A call of \<^verbatim>\<open>startGame\<close> returns exactly when the loop reaches a state in which the
  game is over. When it returns, \<^verbatim>\<open>visualizeEndGame\<close> was called exactly once, as the last
  call, in a state in which the game is over, with the board and the two forfeit flags of
  that state, which are those of the final state. In no state in which the loop condition
  is evaluated has \<^verbatim>\<open>visualizeEndGame\<close> been called; a match that never reaches the end of
  the game never calls it.
\<close>

theorem endGame_once_after_loop:
  "(startGame env gm b pA pB = Some m \<longrightarrow>
      (\<exists>m'. loopHead env (initialMatch env gm b pA pB) m' \<and> gameOver env m'
         \<and> calls m = calls m' @ [VisualizeEndGame (board m) (isPlayerAForfeit m) (isPlayerBForfeit m)]
         \<and> (\<forall>b' x y. VisualizeEndGame b' x y \<notin> set (calls m'))
         \<and> board m = board m' \<and> isPlayerAForfeit m = isPlayerAForfeit m'
         \<and> isPlayerBForfeit m = isPlayerBForfeit m')
      \<and> length [c \<leftarrow> calls m. \<exists>b' x y. c = VisualizeEndGame b' x y] = 1)
   \<and> (loopHead env (initialMatch env gm b pA pB) m1 \<longrightarrow>
        VisualizeEndGame b1 x1 y1 \<notin> set (calls m1))
   \<and> ((\<exists>m2. startGame env gm b pA pB = Some m2) \<longleftrightarrow>
        (\<exists>m2. loopHead env (initialMatch env gm b pA pB) m2 \<and> gameOver env m2))"
proof -
  have a: "startGame env gm b pA pB = Some m \<longrightarrow>
      (\<exists>m'. loopHead env (initialMatch env gm b pA pB) m' \<and> gameOver env m'
         \<and> calls m = calls m' @ [VisualizeEndGame (board m) (isPlayerAForfeit m) (isPlayerBForfeit m)]
         \<and> (\<forall>b' x y. VisualizeEndGame b' x y \<notin> set (calls m'))
         \<and> board m = board m' \<and> isPlayerAForfeit m = isPlayerAForfeit m'
         \<and> isPlayerBForfeit m = isPlayerBForfeit m')
      \<and> length [c \<leftarrow> calls m. \<exists>b' x y. c = VisualizeEndGame b' x y] = 1"
  proof
    assume "startGame env gm b pA pB = Some m"
    then obtain m' where m': "loopHead env (initialMatch env gm b pA pB) m'" "gameOver env m'"
      "m = endGame m'" by (auto simp: startGame_Some)
    have none: "\<forall>b' x y. VisualizeEndGame b' x y \<notin> set (calls m')"
      using no_endGame_call_in_loop [OF m'(1)] by blast
    then have "[c \<leftarrow> calls m'. \<exists>b' x y. c = VisualizeEndGame b' x y] = []"
      by (auto simp: filter_empty_conv)
    then have one: "length [c \<leftarrow> calls m. \<exists>b' x y. c = VisualizeEndGame b' x y] = 1"
      by (simp add: m'(3) endGame_fields)
    have "loopHead env (initialMatch env gm b pA pB) m' \<and> gameOver env m'
         \<and> calls m = calls m' @ [VisualizeEndGame (board m) (isPlayerAForfeit m) (isPlayerBForfeit m)]
         \<and> (\<forall>b' x y. VisualizeEndGame b' x y \<notin> set (calls m'))
         \<and> board m = board m' \<and> isPlayerAForfeit m = isPlayerAForfeit m'
         \<and> isPlayerBForfeit m = isPlayerBForfeit m'"
      using m'(1,2) none by (simp add: m'(3) endGame_fields)
    with one show "(\<exists>m'. loopHead env (initialMatch env gm b pA pB) m' \<and> gameOver env m'
         \<and> calls m = calls m' @ [VisualizeEndGame (board m) (isPlayerAForfeit m) (isPlayerBForfeit m)]
         \<and> (\<forall>b' x y. VisualizeEndGame b' x y \<notin> set (calls m'))
         \<and> board m = board m' \<and> isPlayerAForfeit m = isPlayerAForfeit m'
         \<and> isPlayerBForfeit m = isPlayerBForfeit m')
      \<and> length [c \<leftarrow> calls m. \<exists>b' x y. c = VisualizeEndGame b' x y] = 1"
      by blast
  qed
  have b: "loopHead env (initialMatch env gm b pA pB) m1 \<longrightarrow>
        VisualizeEndGame b1 x1 y1 \<notin> set (calls m1)"
    by (simp add: no_endGame_call_in_loop)
  have c: "(\<exists>m2. startGame env gm b pA pB = Some m2) \<longleftrightarrow>
        (\<exists>m2. loopHead env (initialMatch env gm b pA pB) m2 \<and> gameOver env m2)"
    by (auto simp: startGame_Some)
  from a b c show ?thesis by blast
qed

text \<open>
  A match that never ends: on the board \<open>twoShips\<close>, two players that attack the empty
  cell (1,1) for ever. Every attack is a miss, no ship is lost and nobody forfeits.
\<close>

lemma repeating_step:
  fixes m :: "(fleet, target list, unit) Match"
  assumes "board m = twoShips" "playerA m = [(1, 1)]" "playerB m = [(1, 1)]"
    "\<not> isPlayerAForfeit m" "\<not> isPlayerBForfeit m"
  shows "\<not> gameOver repeatingGame m"
    and "board (loopBody repeatingGame m) = twoShips"
    and "playerA (loopBody repeatingGame m) = [(1, 1)]"
    and "playerB (loopBody repeatingGame m) = [(1, 1)]"
    and "\<not> isPlayerAForfeit (loopBody repeatingGame m)"
    and "\<not> isPlayerBForfeit (loopBody repeatingGame m)"
  using assms
  by (cases "currentPlayer m"; simp add: engine_defs example_defs)+

lemma repeating_never_returns:
  fixes m :: "(fleet, target list, unit) Match"
  assumes "gameLoop env m = Some m'"
  shows "env = repeatingGame \<Longrightarrow> board m = twoShips \<Longrightarrow> playerA m = [(1, 1)] \<Longrightarrow>
    playerB m = [(1, 1)] \<Longrightarrow> \<not> isPlayerAForfeit m \<Longrightarrow> \<not> isPlayerBForfeit m \<Longrightarrow> False"
  using assms
proof (induct rule: gameLoop.raw_induct [rotated, consumes 1, case_names step])
  case (step gameLoop' env m m')
  from step(3-8) have no: "\<not> gameOver env m" by (simp add: repeating_step(1))
  with step(2) have rec: "gameLoop' env (loopBody env m) = Some m'" by simp
  have next_state:
    "board (loopBody env m) = twoShips"
    "playerA (loopBody env m) = [(1, 1)]"
    "playerB (loopBody env m) = [(1, 1)]"
    "\<not> isPlayerAForfeit (loopBody env m)"
    "\<not> isPlayerBForfeit (loopBody env m)"
    using step(3-8) by (simp_all add: repeating_step)
  from rec step(3) next_state show ?case by (rule step(1))
qed

theorem endless_match_counterexample:
  "startGame repeatingGame newGameManager twoShips [(1, 1)] [(1, 1)] = None"
proof (cases "gameLoop repeatingGame (initialMatch repeatingGame newGameManager twoShips [(1, 1)] [(1, 1)])")
  case None
  then show ?thesis by (simp add: startGame_def)
next
  case (Some m')
  then have False
    by (rule repeating_never_returns) (simp_all add: engine_defs example_defs)
  then show ?thesis ..
qed

theorem endGame_once_after_loop_witness:
  "startGame scriptedGame newGameManager twoShips [(1, 1), (3, 3)] [(1, 1)] =
     Some \<lparr>manager = newGameManager, board = [(A, [(4, 4), (4, 5)]), (B, [])],
           playerA = [], playerB = [], currentPlayer = A,
           isPlayerAForfeit = False, isPlayerBForfeit = False,
           calls =
             [SetBoard A () 10 10, SetBoard B () 10 10,
              AttackCall A (1, 1), ExecuteAttack (0, 0),
              NotifyOnAttackResult A 0 0 0 Miss, NotifyOnAttackResult B 0 0 0 Miss,
              VisualizeAttackResults 0 0 Miss,
              AttackCall B (1, 1), ExecuteAttack (0, 0),
              NotifyOnAttackResult A 1 0 0 Miss, NotifyOnAttackResult B 1 0 0 Miss,
              VisualizeAttackResults 0 0 Miss,
              AttackCall A (3, 3), ExecuteAttack (2, 2),
              NotifyOnAttackResult A 0 2 2 Sink, NotifyOnAttackResult B 0 2 2 Sink,
              VisualizeAttackResults 2 2 Sink,
              VisualizeEndGame [(A, [(4, 4), (4, 5)]), (B, [])] False False]\<rparr>
   \<and> (\<exists>m'. loopHead scriptedGame
              (initialMatch scriptedGame newGameManager twoShips [(1, 1), (3, 3)] [(1, 1)]) m'
            \<and> gameOver scriptedGame m')
   \<and> map_option (\<lambda>m. length [c \<leftarrow> calls m. \<exists>b' x y. c = VisualizeEndGame b' x y])
         (startGame scriptedGame newGameManager twoShips [(1, 1), (3, 3)] [(1, 1)]) = Some 1"
proof -
  let ?r = "startGame scriptedGame newGameManager twoShips [(1, 1), (3, 3)] [(1, 1)]"
  have run: "?r =
     Some \<lparr>manager = newGameManager, board = [(A, [(4, 4), (4, 5)]), (B, [])],
           playerA = [], playerB = [], currentPlayer = A,
           isPlayerAForfeit = False, isPlayerBForfeit = False,
           calls =
             [SetBoard A () 10 10, SetBoard B () 10 10,
              AttackCall A (1, 1), ExecuteAttack (0, 0),
              NotifyOnAttackResult A 0 0 0 Miss, NotifyOnAttackResult B 0 0 0 Miss,
              VisualizeAttackResults 0 0 Miss,
              AttackCall B (1, 1), ExecuteAttack (0, 0),
              NotifyOnAttackResult A 1 0 0 Miss, NotifyOnAttackResult B 1 0 0 Miss,
              VisualizeAttackResults 0 0 Miss,
              AttackCall A (3, 3), ExecuteAttack (2, 2),
              NotifyOnAttackResult A 0 2 2 Sink, NotifyOnAttackResult B 0 2 2 Sink,
              VisualizeAttackResults 2 2 Sink,
              VisualizeEndGame [(A, [(4, 4), (4, 5)]), (B, [])] False False]\<rparr>"
    by (simp add: startGame_def gameLoop.simps engine_defs example_defs)
  then obtain m where m: "?r = Some m" by blast
  note inst = endGame_once_after_loop [of scriptedGame newGameManager twoShips
      "[(1, 1), (3, 3)]" "[(1, 1)]" m]
  have one: "length [c \<leftarrow> calls m. \<exists>b' x y. c = VisualizeEndGame b' x y] = 1"
    using inst m by blast
  have ex: "\<exists>m'. loopHead scriptedGame
              (initialMatch scriptedGame newGameManager twoShips [(1, 1), (3, 3)] [(1, 1)]) m'
            \<and> gameOver scriptedGame m'"
    using inst m by blast
  from one m
  have "map_option (\<lambda>m. length [c \<leftarrow> calls m. \<exists>b' x y. c = VisualizeEndGame b' x y]) ?r = Some 1"
    by simp
  with run ex show ?thesis by blast
qed

section \<open>The score state of the manager\<close>

lemma manager_in_loop:
  assumes "loopHead env (initialMatch env gm b pA pB) m"
  shows "manager m = gm \<and> UpdateScoreboard \<notin> set (calls m)
    \<and> UpdateCurrentGamePoints \<notin> set (calls m)"
  using assms
proof (induction rule: loopHead.induct)
  case enter
  show ?case by (simp add: initialMatch_fields)
next
  case (iterate m)
  have "UpdateScoreboard \<notin> set (iterationCalls env m)
    \<and> UpdateCurrentGamePoints \<notin> set (iterationCalls env m)"
    by (cases "targetOf env m = FORFEIT")
       (simp_all add: iterationCalls_attack iterationCalls_forfeit)
  with iterate.IH show ?case by (simp add: calls_loopBody loopBody_manager)
qed

text \<open>The loop never looks at the manager: a different score leads to the same match.\<close>

lemma callAttack_manager_update:
  "callAttack env (m\<lparr>manager := g\<rparr>) =
     (fst (callAttack env m), (snd (callAttack env m))\<lparr>manager := g\<rparr>)"
  by (simp add: callAttack_def split: prod.split)

lemma forfeitTurn_manager_update: "forfeitTurn (m\<lparr>manager := g\<rparr>) = (forfeitTurn m)\<lparr>manager := g\<rparr>"
  by (simp add: forfeitTurn_def Let_def)

lemma notifyAll_manager_update:
  "notifyAll env n t res (m\<lparr>manager := g\<rparr>) = (notifyAll env n t res m)\<lparr>manager := g\<rparr>"
  by (simp add: notifyAll_def)

lemma attackTurn_manager_update:
  "attackTurn env t (m\<lparr>manager := g\<rparr>) = (attackTurn env t m)\<lparr>manager := g\<rparr>"
  by (rule Match.equality;
      simp add: attackTurn_def notifyAll_def Let_def split: prod.split option.split)

lemma loopBody_manager_update:
  "loopBody env (m\<lparr>manager := g\<rparr>) = (loopBody env m)\<lparr>manager := g\<rparr>"
  by (simp add: loopBody_def callAttack_manager_update forfeitTurn_manager_update
      attackTurn_manager_update split: prod.split)

lemma gameOver_manager_update: "gameOver env (m\<lparr>manager := g\<rparr>) = gameOver env m"
  by (simp add: gameOver_def)

lemma loopHead_manager_update:
  "loopHead env m0 m \<Longrightarrow> loopHead env (m0\<lparr>manager := g\<rparr>) (m\<lparr>manager := g\<rparr>)"
proof (induction rule: loopHead.induct)
  case enter
  show ?case by (rule loopHead.enter)
next
  case (iterate m)
  from iterate(2) have "\<not> gameOver env (m\<lparr>manager := g\<rparr>)"
    by (simp add: gameOver_manager_update)
  with iterate.IH have "loopHead env (m0\<lparr>manager := g\<rparr>) (loopBody env (m\<lparr>manager := g\<rparr>))"
    by (rule loopHead.iterate)
  then show ?case by (simp add: loopBody_manager_update)
qed

lemma initialMatch_manager_update:
  "(initialMatch env gm b pA pB)\<lparr>manager := g\<rparr> = initialMatch env g b pA pB"
  by (simp add: initialMatch_def Let_def)

lemma endGame_manager_update: "endGame (m\<lparr>manager := g\<rparr>) = (endGame m)\<lparr>manager := g\<rparr>"
  by (simp add: endGame_def)

lemma startGame_manager_update:
  "startGame env gm b pA pB = Some m \<Longrightarrow> startGame env g b pA pB = Some (m\<lparr>manager := g\<rparr>)"
proof -
  assume "startGame env gm b pA pB = Some m"
  then obtain m' where m': "loopHead env (initialMatch env gm b pA pB) m'" "gameOver env m'"
    "m = endGame m'" by (auto simp: startGame_Some)
  from m'(1) have "loopHead env (initialMatch env g b pA pB) (m'\<lparr>manager := g\<rparr>)"
    using loopHead_manager_update [of env "initialMatch env gm b pA pB" m' g]
    by (simp add: initialMatch_manager_update)
  moreover have "gameOver env (m'\<lparr>manager := g\<rparr>)"
    using m'(2) by (simp add: gameOver_manager_update)
  moreover have "m\<lparr>manager := g\<rparr> = endGame (m'\<lparr>manager := g\<rparr>)"
    by (simp add: m'(3) endGame_manager_update)
  ultimately show ?thesis
    unfolding startGame_Some by blast
qed

lemma startGame_None_any_manager:
  "startGame env gm b pA pB = None \<Longrightarrow> startGame env g b pA pB = None"
proof (rule ccontr)
  assume n: "startGame env gm b pA pB = None" and "startGame env g b pA pB \<noteq> None"
  then obtain m where "startGame env g b pA pB = Some m" by blast
  then have "startGame env gm b pA pB = Some (m\<lparr>manager := gm\<rparr>)"
    by (rule startGame_manager_update)
  with n show False by simp
qed

text \<open>
  C10. A call of \<^verbatim>\<open>startGame\<close> leaves the win counters of the manager as they were: in
  every state in which the loop condition is evaluated, and in the state in which the call
  returns, the manager is the one the call started with, and neither
  \<^verbatim>\<open>updateScoreboard\<close> nor \<^verbatim>\<open>updateCurrentGamePoints\<close> has been called. The call does not
  read the counters either: started with any other counters it makes the same match and
  leaves those counters as they were.
\<close>

theorem startGame_keeps_score:
  "(loopHead env (initialMatch env gm b pA pB) m \<longrightarrow>
      manager m = gm \<and> playerAWins (manager m) = playerAWins gm
      \<and> playerBWins (manager m) = playerBWins gm
      \<and> UpdateScoreboard \<notin> set (calls m) \<and> UpdateCurrentGamePoints \<notin> set (calls m))
   \<and> (startGame env gm b pA pB = Some m' \<longrightarrow>
      manager m' = gm \<and> playerAWins (manager m') = playerAWins gm
      \<and> playerBWins (manager m') = playerBWins gm
      \<and> UpdateScoreboard \<notin> set (calls m') \<and> UpdateCurrentGamePoints \<notin> set (calls m'))
   \<and> startGame env g b pA pB = map_option (\<lambda>r. r\<lparr>manager := g\<rparr>) (startGame env gm b pA pB)"
proof -
  have a: "loopHead env (initialMatch env gm b pA pB) m \<longrightarrow>
      manager m = gm \<and> playerAWins (manager m) = playerAWins gm
      \<and> playerBWins (manager m) = playerBWins gm
      \<and> UpdateScoreboard \<notin> set (calls m) \<and> UpdateCurrentGamePoints \<notin> set (calls m)"
    using manager_in_loop [of env gm b pA pB m] by simp
  have b: "startGame env gm b pA pB = Some m' \<longrightarrow>
      manager m' = gm \<and> playerAWins (manager m') = playerAWins gm
      \<and> playerBWins (manager m') = playerBWins gm
      \<and> UpdateScoreboard \<notin> set (calls m') \<and> UpdateCurrentGamePoints \<notin> set (calls m')"
  proof
    assume "startGame env gm b pA pB = Some m'"
    then obtain m1 where m1: "loopHead env (initialMatch env gm b pA pB) m1" "m' = endGame m1"
      by (auto simp: startGame_Some)
    from manager_in_loop [OF m1(1)]
    show "manager m' = gm \<and> playerAWins (manager m') = playerAWins gm
      \<and> playerBWins (manager m') = playerBWins gm
      \<and> UpdateScoreboard \<notin> set (calls m') \<and> UpdateCurrentGamePoints \<notin> set (calls m')"
      by (simp add: m1(2) endGame_fields)
  qed
  have c: "startGame env g b pA pB = map_option (\<lambda>r. r\<lparr>manager := g\<rparr>) (startGame env gm b pA pB)"
  proof (cases "startGame env gm b pA pB")
    case None
    then show ?thesis by (simp add: startGame_None_any_manager)
  next
    case (Some r)
    then show ?thesis by (simp add: startGame_manager_update)
  qed
  from a b c show ?thesis by blast
qed

theorem startGame_keeps_score_witness:
  "(\<exists>m. startGame scriptedGame \<lparr>playerAWins = 3, playerBWins = 5\<rparr> twoShips [(3, 3)] [] = Some m
        \<and> manager m = \<lparr>playerAWins = 3, playerBWins = 5\<rparr>
        \<and> UpdateScoreboard \<notin> set (calls m) \<and> UpdateCurrentGamePoints \<notin> set (calls m))
   \<and> loopHead scriptedGame
       (initialMatch scriptedGame \<lparr>playerAWins = 3, playerBWins = 5\<rparr> twoShips [(3, 3)] [])
       (loopBody scriptedGame
          (initialMatch scriptedGame \<lparr>playerAWins = 3, playerBWins = 5\<rparr> twoShips [(3, 3)] []))
   \<and> manager (loopBody scriptedGame
        (initialMatch scriptedGame \<lparr>playerAWins = 3, playerBWins = 5\<rparr> twoShips [(3, 3)] []))
      = \<lparr>playerAWins = 3, playerBWins = 5\<rparr>"
proof -
  let ?gm = "\<lparr>playerAWins = 3, playerBWins = 5\<rparr>"
  let ?m0 = "initialMatch scriptedGame ?gm twoShips [(3, 3)] []"
  have "startGame scriptedGame ?gm twoShips [(3, 3)] [] \<noteq> None"
    by (simp add: startGame_def gameLoop.simps engine_defs example_defs)
  then obtain m where m: "startGame scriptedGame ?gm twoShips [(3, 3)] [] = Some m" by blast
  have l0: "loopHead scriptedGame ?m0 ?m0" by (rule loopHead.enter)
  have "\<not> gameOver scriptedGame ?m0" by (simp add: engine_defs example_defs)
  with l0 have l1: "loopHead scriptedGame ?m0 (loopBody scriptedGame ?m0)"
    by (rule loopHead.iterate)
  have "manager m = ?gm \<and> UpdateScoreboard \<notin> set (calls m)
      \<and> UpdateCurrentGamePoints \<notin> set (calls m)"
    using startGame_keeps_score [of scriptedGame ?gm twoShips "[(3, 3)]" "[]" _ m] m by blast
  with m have "\<exists>m. startGame scriptedGame ?gm twoShips [(3, 3)] [] = Some m
        \<and> manager m = ?gm
        \<and> UpdateScoreboard \<notin> set (calls m) \<and> UpdateCurrentGamePoints \<notin> set (calls m)"
    by blast
  moreover have "manager (loopBody scriptedGame ?m0) = ?gm"
    using startGame_keeps_score [of scriptedGame ?gm twoShips "[(3, 3)]" "[]"
        "loopBody scriptedGame ?m0"] l1 by blast
  ultimately show ?thesis using l1 by blast
qed

section \<open>Round results\<close>

lemma set_set_insert: "set (set_insert lt x ys) \<subseteq> insert x (set ys)"
  by (induction ys) auto

lemma RatingSort_iff: "PlayerStatisticsRatingSort a b \<longleftrightarrow> rating a < rating b"
  by (simp add: PlayerStatisticsRatingSort_def)

lemma rating_sorted_insert:
  "sorted_wrt PlayerStatisticsRatingSort ys \<Longrightarrow>
   sorted_wrt PlayerStatisticsRatingSort (set_insert PlayerStatisticsRatingSort x ys)"
proof (induction ys)
  case Nil
  show ?case by simp
next
  case (Cons y ys)
  from Cons.prems have tl: "sorted_wrt PlayerStatisticsRatingSort ys"
    and hd: "\<forall>z \<in> set ys. PlayerStatisticsRatingSort y z"
    by simp_all
  show ?case
  proof (cases "PlayerStatisticsRatingSort x y")
    case True
    have "\<forall>z \<in> set ys. PlayerStatisticsRatingSort x z"
    proof
      fix z assume "z \<in> set ys"
      with hd have "PlayerStatisticsRatingSort y z" by simp
      with True show "PlayerStatisticsRatingSort x z" by (simp add: RatingSort_iff)
    qed
    with True Cons.prems show ?thesis by simp
  next
    case False
    show ?thesis
    proof (cases "PlayerStatisticsRatingSort y x")
      case True
      have "\<forall>z \<in> set (set_insert PlayerStatisticsRatingSort x ys). PlayerStatisticsRatingSort y z"
      proof
        fix z assume "z \<in> set (set_insert PlayerStatisticsRatingSort x ys)"
        with set_set_insert [of PlayerStatisticsRatingSort x ys] have "z = x \<or> z \<in> set ys"
          by blast
        with True hd show "PlayerStatisticsRatingSort y z" by blast
      qed
      with False True Cons.IH [OF tl] show ?thesis by simp
    next
      case no: False
      with False Cons.prems show ?thesis by simp
    qed
  qed
qed

lemma rating_insert_equal:
  "sorted_wrt PlayerStatisticsRatingSort ys \<Longrightarrow> y \<in> set ys \<Longrightarrow> rating y = rating x \<Longrightarrow>
   set_insert PlayerStatisticsRatingSort x ys = ys"
proof (induction ys)
  case Nil
  then show ?case by simp
next
  case (Cons z zs)
  from Cons.prems(1) have tl: "sorted_wrt PlayerStatisticsRatingSort zs"
    and hd: "\<forall>w \<in> set zs. PlayerStatisticsRatingSort z w"
    by simp_all
  show ?case
  proof (cases "y = z")
    case True
    with Cons.prems(3) have "\<not> PlayerStatisticsRatingSort x z" "\<not> PlayerStatisticsRatingSort z x"
      by (simp_all add: RatingSort_iff)
    then show ?thesis by simp
  next
    case False
    with Cons.prems(2) have yin: "y \<in> set zs" by simp
    with hd have "PlayerStatisticsRatingSort z y" by simp
    with Cons.prems(3) have zx: "PlayerStatisticsRatingSort z x" "\<not> PlayerStatisticsRatingSort x z"
      by (simp_all add: RatingSort_iff)
    have "set_insert PlayerStatisticsRatingSort x zs = zs"
      using tl yin Cons.prems(3) by (rule Cons.IH)
    with zx show ?thesis by simp
  qed
qed

lemma rating_sorted_distinct:
  "sorted_wrt PlayerStatisticsRatingSort ys \<Longrightarrow> distinct (map rating ys)"
proof (induction ys)
  case Nil
  show ?case by simp
next
  case (Cons y ys)
  from Cons.prems have tl: "sorted_wrt PlayerStatisticsRatingSort ys"
    and hd: "\<forall>z \<in> set ys. PlayerStatisticsRatingSort y z"
    by simp_all
  have "rating y \<notin> rating ` set ys"
  proof
    assume "rating y \<in> rating ` set ys"
    then obtain z where z: "z \<in> set ys" "rating y = rating z" by blast
    from z(1) hd have "PlayerStatisticsRatingSort y z" by simp
    with z(2) show False by (simp add: RatingSort_iff)
  qed
  with Cons.IH [OF tl] show ?case by simp
qed

lemma roundResults_sorted:
  "roundResults r \<Longrightarrow> sorted_wrt PlayerStatisticsRatingSort (playerStatistics r)"
proof (induction rule: roundResults.induct)
  case (fresh n)
  show ?case by (simp add: newRoundResults_def)
next
  case (inserted r s)
  then show ?case by (simp add: insertStatistics_def rating_sorted_insert)
qed

lemma set_insert_new:
  "\<forall>y \<in> set ys. rating y \<noteq> rating x \<Longrightarrow> x \<in> set (set_insert PlayerStatisticsRatingSort x ys)"
proof (induction ys)
  case Nil
  show ?case by simp
next
  case (Cons y ys)
  from Cons.prems have ne: "rating y \<noteq> rating x" by simp
  show ?case
  proof (cases "PlayerStatisticsRatingSort x y")
    case True
    then show ?thesis by simp
  next
    case False
    with ne have "PlayerStatisticsRatingSort y x" by (simp add: RatingSort_iff)
    moreover from Cons have "x \<in> set (set_insert PlayerStatisticsRatingSort x ys)" by simp
    ultimately show ?thesis using False by simp
  qed
qed

lemma set_insert_keeps: "set ys \<subseteq> set (set_insert lt x ys)"
  by (induction ys) auto

text \<open>
  What the rating-only comparator makes of the statistics of a round: the entries are in
  strictly increasing order of rating, an insertion keeps every entry that was there, adds
  the new entry when no entry has its rating, and does nothing when an entry has its rating.
\<close>

lemma roundResults_rating_key:
  assumes "roundResults r"
  shows "sorted_wrt (\<lambda>a b. rating a < rating b) (playerStatistics r)"
    and "distinct (map rating (playerStatistics r))"
    and "set (playerStatistics r) \<subseteq> set (playerStatistics (insertStatistics s r))"
    and "\<forall>y \<in> set (playerStatistics r). rating y \<noteq> rating s \<Longrightarrow>
          set (playerStatistics (insertStatistics s r)) = insert s (set (playerStatistics r))"
    and "\<exists>y \<in> set (playerStatistics r). rating y = rating s \<Longrightarrow> insertStatistics s r = r"
proof -
  have srt: "sorted_wrt PlayerStatisticsRatingSort (playerStatistics r)"
    using assms by (rule roundResults_sorted)
  have eq: "PlayerStatisticsRatingSort = (\<lambda>a b. rating a < rating b)"
    by (rule ext, rule ext) (simp add: RatingSort_iff)
  show "sorted_wrt (\<lambda>a b. rating a < rating b) (playerStatistics r)"
    using srt unfolding eq .
  show "distinct (map rating (playerStatistics r))"
    using srt by (rule rating_sorted_distinct)
  show keeps: "set (playerStatistics r) \<subseteq> set (playerStatistics (insertStatistics s r))"
    by (simp add: insertStatistics_def set_insert_keeps)
  show "set (playerStatistics (insertStatistics s r)) = insert s (set (playerStatistics r))"
    if "\<forall>y \<in> set (playerStatistics r). rating y \<noteq> rating s"
  proof -
    from that have "s \<in> set (playerStatistics (insertStatistics s r))"
      by (simp add: insertStatistics_def set_insert_new)
    moreover have "set (playerStatistics (insertStatistics s r)) \<subseteq> insert s (set (playerStatistics r))"
      by (simp add: insertStatistics_def set_set_insert)
    ultimately show ?thesis using keeps by blast
  qed
  show "insertStatistics s r = r" if "\<exists>y \<in> set (playerStatistics r). rating y = rating s"
  proof -
    from that obtain y where "y \<in> set (playerStatistics r)" "rating y = rating s" by blast
    with srt have "set_insert PlayerStatisticsRatingSort s (playerStatistics r) = playerStatistics r"
      by (rule rating_insert_equal)
    then show ?thesis by (simp add: insertStatistics_def)
  qed
qed

text \<open>
  C4. Two entries with equal rating are not both retained in the statistics of a round.
  The set orders its entries by \<^verbatim>\<open>PlayerStatisticsRatingSort\<close>, which compares the rating
  and nothing else, so it takes an entry whose rating it already holds for an entry it
  already has. Alice and Bob are two players with the same rating: inserted after Alice's
  entry, Bob's entry is dropped and the round holds one entry, although the comments of
  Scoreboard.h (lines 96 and 116-118) speak of an entry for each player of the round.
  Carol's entry, of another rating, is kept next to Alice's.
\<close>

theorem equal_rating_entry_dropped:
  "rating alice = rating bob \<and> playerName alice \<noteq> playerName bob
   \<and> playerStatistics (insertStatistics bob (insertStatistics alice (newRoundResults 1))) = [alice]
   \<and> bob \<notin> set (playerStatistics
                  (insertStatistics bob (insertStatistics alice (newRoundResults 1))))
   \<and> length (playerStatistics
               (insertStatistics bob (insertStatistics alice (newRoundResults 1)))) = 1
   \<and> playerStatistics (insertStatistics carol (insertStatistics alice (newRoundResults 1)))
      = [alice, carol]"
  by (simp add: insertStatistics_def newRoundResults_def PlayerStatisticsRatingSort_def
      alice_def bob_def carol_def)

end
